theory Spec2Isabelle
  imports Main
begin

section \<open>The torch backend layer adapter (keras/src/backend/torch/layer.py)\<close>

text \<open>
  \<^verbatim>\<open>TorchLayer\<close> keeps, for every keras layer, a \<^verbatim>\<open>torch.nn.ParameterList\<close> in the
  attribute \<^verbatim>\<open>torch_params\<close> that holds the tensors of the layer's own variables, so
  that torch finds them. Layers, parameter lists and tensors are Python objects: they are
  modelled as addresses into an explicit store, so that two references to one object are
  one address.

  The module constant \<^verbatim>\<open>NEW_IMPL\<close> is \<^verbatim>\<open>True\<close>. The three branches under
  \<^verbatim>\<open>if not NEW_IMPL\<close> never run (they read \<^verbatim>\<open>Layer.variables\<close>, which is
  defined outside this file); the model is the code with the constant folded.
\<close>

subsection \<open>Objects\<close>

type_synonym addr = nat

text \<open>A keras variable, as far as this file needs it: \<^verbatim>\<open>variable.path\<close>, and the
  reference to the \<^verbatim>\<open>torch.nn.Parameter\<close> that holds the variable's storage (in
  keras the attribute \<^verbatim>\<open>_value\<close>; the class docstring of \<^verbatim>\<open>TorchLayer\<close> calls it
  the parameter ``in keras tracker'').\<close>

record variable =
  path :: string
  var_value :: addr

text \<open>What reading a value can give: a reference to a \<^verbatim>\<open>torch.nn.Parameter\<close>, or a
  placeholder, a tensor that is not a \<^verbatim>\<open>Parameter\<close> and that nothing else refers to.\<close>

datatype tensor = Parameter addr | Placeholder

text \<open>Modelled from the spec: the property \<^verbatim>\<open>Variable.value\<close>, which is keras code outside
  this file. The spec gives a variable a \<^verbatim>\<open>value\<close>, its native tensor handle, and says of
  the stateless scope that it is ``an evaluation context in which variables are
  placeholders without materialized storage''. So a read outside a stateless scope gives
  the variable's own parameter, and a read inside one gives a placeholder.\<close>

definition variable_value :: "bool \<Rightarrow> variable \<Rightarrow> tensor" where
  "variable_value in_stateless_scope v =
     (if in_stateless_scope then Placeholder else Parameter (var_value v))"

text \<open>A seed generator; \<^verbatim>\<open>sg.state\<close> is a variable.\<close>

record seed_generator =
  state :: variable

text \<open>An entry of torch's registry \<^verbatim>\<open>Module._modules\<close> of a layer: a sublayer under the
  name of the attribute it was assigned to, or the \<^verbatim>\<open>ParameterList\<close> under the name
  \<^verbatim>\<open>torch_params\<close>. (Registered modules that are not keras layers are left out.)\<close>

datatype entry = SubLayer string addr | TorchParams

text \<open>The attributes of a layer that this file reads or writes. \<^verbatim>\<open>torch_params\<close> is
  \<open>None\<close> when the object has no such attribute, and otherwise the reference to its
  \<^verbatim>\<open>ParameterList\<close>. \<open>modules\<close> is the registry \<^verbatim>\<open>_modules\<close> in its order, which
  the class docstring refers to and which torch keeps as attributes are assigned and
  deleted; \<^verbatim>\<open>_layers\<close> is keras's own list of sublayers.\<close>

record layer =
  layers :: "addr list"
  trainable_variables :: "variable list"
  non_trainable_variables :: "variable list"
  seed_generators :: "seed_generator list"
  built :: bool
  torch_params :: "addr option"
  modules :: "entry list"

text \<open>The store: the layer at every address, the contents of every
  \<^verbatim>\<open>ParameterList\<close> object (references to tensors, in order), the contents of every
  tensor, and the next address at which an object is created.\<close>

record heap =
  layer_objs :: "addr \<Rightarrow> layer"
  param_lists :: "addr \<Rightarrow> addr list"
  tensor_store :: "addr \<Rightarrow> int list"
  next_obj :: addr

text \<open>The exceptions that the methods raise. In Python \<^verbatim>\<open>RecursionError\<close> is a subclass
  of \<^verbatim>\<open>RuntimeError\<close>; the two are kept apart here, and a \<^verbatim>\<open>RuntimeError\<close> carries
  its message.\<close>

datatype error = AttributeError | RuntimeError string | RecursionError

subsection \<open>Python's \<^verbatim>\<open>for\<close> loop over a list, with exceptions\<close>

fun for_each :: "('s \<Rightarrow> 'a \<Rightarrow> error + 's) \<Rightarrow> 's \<Rightarrow> 'a list \<Rightarrow> error + 's" where
  "for_each f s [] = Inr s"
| "for_each f s (x # xs) =
     (case f s x of Inl e \<Rightarrow> Inl e | Inr s' \<Rightarrow> for_each f s' xs)"

subsection \<open>The methods of \<^verbatim>\<open>TorchLayer\<close>\<close>

text \<open>\<^verbatim>\<open>hasattr(self, "torch_params")\<close>.\<close>

definition torch_params_tracked :: "heap \<Rightarrow> addr \<Rightarrow> bool" where
  "torch_params_tracked h self = (torch_params (layer_objs h self) \<noteq> None)"

text \<open>The list that \<^verbatim>\<open>_track_torch_params\<close> collects: \<^verbatim>\<open>v.value\<close> for the
  trainable and then the non-trainable variables, then \<^verbatim>\<open>sg.state.value\<close> for the
  seed generators. The values are read when the method runs, in the scope that is active
  then.\<close>

definition collect_torch_params :: "bool \<Rightarrow> layer \<Rightarrow> tensor list" where
  "collect_torch_params in_stateless_scope l =
     map (variable_value in_stateless_scope) (trainable_variables l @ non_trainable_variables l)
       @ map (\<lambda>sg. variable_value in_stateless_scope (state sg)) (seed_generators l)"

text \<open>The items of \<^verbatim>\<open>torch.nn.ParameterList(values)\<close>, which is torch's: a value that is
  a \<^verbatim>\<open>Parameter\<close> is kept as the reference it is, and any other tensor is wrapped in
  a new \<^verbatim>\<open>Parameter\<close> object. The new objects take the addresses from \<open>n\<close> on.\<close>

fun parameter_list_items :: "addr \<Rightarrow> tensor list \<Rightarrow> addr list" where
  "parameter_list_items n [] = []"
| "parameter_list_items n (Parameter p # xs) = p # parameter_list_items n xs"
| "parameter_list_items n (Placeholder # xs) = n # parameter_list_items (Suc n) xs"

definition new_parameters :: "tensor list \<Rightarrow> nat" where
  "new_parameters xs = length (filter (\<lambda>x. x = Placeholder) xs)"

text \<open>Torch's registration of the attribute \<^verbatim>\<open>torch_params\<close>: a name that is new goes
  to the end of the registry, a name that is there keeps its place.\<close>

definition register_torch_params :: "entry list \<Rightarrow> entry list" where
  "register_torch_params ms = (if TorchParams \<in> set ms then ms else ms @ [TorchParams])"

text \<open>\<^verbatim>\<open>self.torch_params = torch.nn.ParameterList(torch_params)\<close>: a new
  \<^verbatim>\<open>ParameterList\<close> object with these items, and the attribute set to it.\<close>

definition set_torch_params :: "heap \<Rightarrow> addr \<Rightarrow> tensor list \<Rightarrow> heap" where
  "set_torch_params h self xs =
     h\<lparr>layer_objs := (layer_objs h)
         (self := (layer_objs h self)
            \<lparr>torch_params := Some (next_obj h),
             modules := register_torch_params (modules (layer_objs h self))\<rparr>),
       param_lists := (param_lists h)(next_obj h := parameter_list_items (Suc (next_obj h)) xs),
       next_obj := Suc (next_obj h) + new_parameters xs\<rparr>"

text \<open>\<^verbatim>\<open>del self.torch_params\<close>: Python raises \<^verbatim>\<open>AttributeError\<close> when the object
  has no such attribute; otherwise the attribute goes, and its entry in the registry
  with it.\<close>

definition del_torch_params :: "heap \<Rightarrow> addr \<Rightarrow> error + heap" where
  "del_torch_params h self =
     (if torch_params_tracked h self
      then Inr (h\<lparr>layer_objs := (layer_objs h)
                  (self := (layer_objs h self)
                     \<lparr>torch_params := None,
                      modules := removeAll TorchParams (modules (layer_objs h self))\<rparr>)\<rparr>)
      else Inl AttributeError)"

text \<open>\<^verbatim>\<open>_track_torch_params\<close>. The method calls itself on the sublayers; the
  argument \<open>d\<close> bounds how deep this recursion may go, and Python raises
  \<^verbatim>\<open>RecursionError\<close> when its recursion limit is reached. The first argument says
  whether a stateless scope is active while the method runs: the method does not ask,
  but the values it reads depend on it.\<close>

fun track_torch_params :: "bool \<Rightarrow> nat \<Rightarrow> heap \<Rightarrow> addr \<Rightarrow> error + heap" where
  "track_torch_params s 0 h self = Inl RecursionError"
| "track_torch_params s (Suc d) h self =
     (case for_each (track_torch_params s d) h (layers (layer_objs h self)) of
        Inl e \<Rightarrow> Inl e
      | Inr h1 \<Rightarrow>
          if torch_params_tracked h1 self then Inr h1
          else Inr (set_torch_params h1 self (collect_torch_params s (layer_objs h1 self))))"

text \<open>\<^verbatim>\<open>_untrack_torch_params\<close>.\<close>

fun untrack_torch_params :: "nat \<Rightarrow> heap \<Rightarrow> addr \<Rightarrow> error + heap" where
  "untrack_torch_params 0 h self = Inl RecursionError"
| "untrack_torch_params (Suc d) h self =
     (case for_each (untrack_torch_params d) h (layers (layer_objs h self)) of
        Inl e \<Rightarrow> Inl e
      | Inr h1 \<Rightarrow> del_torch_params h1 self)"

text \<open>\<^verbatim>\<open>_post_build\<close>. \<^verbatim>\<open>in_stateless_scope()\<close> is a query of keras's global state,
  defined outside this file: its answer is the first argument.\<close>

definition post_build :: "bool \<Rightarrow> nat \<Rightarrow> heap \<Rightarrow> addr \<Rightarrow> error + heap" where
  "post_build in_stateless_scope d h self =
     (if in_stateless_scope then Inr h else track_torch_params in_stateless_scope d h self)"

definition not_built_message :: string where
  "not_built_message =
     ''Torch parameters are not tracked yet and layer is not built. Did you forget to call build()?''"

text \<open>\<^verbatim>\<open>named_parameters\<close>. The enumeration itself is torch's
  \<^verbatim>\<open>torch.nn.Module.named_parameters\<close>, which is not part of this repository: it is the
  first argument, a function of the store, the layer and the three arguments that are
  handed through. The second argument says whether a stateless scope is active during
  the call.\<close>

definition named_parameters ::
  "(heap \<Rightarrow> addr \<Rightarrow> string \<Rightarrow> bool \<Rightarrow> bool \<Rightarrow> 'r) \<Rightarrow> bool \<Rightarrow> nat \<Rightarrow> heap \<Rightarrow> addr
     \<Rightarrow> string \<Rightarrow> bool \<Rightarrow> bool \<Rightarrow> error + heap \<times> 'r" where
  "named_parameters Module_named_parameters in_stateless_scope d h self prefix recurse
       remove_duplicate =
     (if \<not> torch_params_tracked h self then
        if built (layer_objs h self) then
          (case track_torch_params in_stateless_scope d h self of
             Inl e \<Rightarrow> Inl e
           | Inr h1 \<Rightarrow> Inr (h1, Module_named_parameters h1 self prefix recurse remove_duplicate))
        else Inl (RuntimeError not_built_message)
      else Inr (h, Module_named_parameters h self prefix recurse remove_duplicate))"

text \<open>\<^verbatim>\<open>_post_track_variable\<close> and \<^verbatim>\<open>_post_untrack_variable\<close>: the same body; the
  variable is not read. The first argument is again the scope that is active.\<close>

definition post_track_variable ::
  "bool \<Rightarrow> nat \<Rightarrow> heap \<Rightarrow> addr \<Rightarrow> variable \<Rightarrow> error + heap" where
  "post_track_variable in_stateless_scope d h self variable =
     (if torch_params_tracked h self then
        (case untrack_torch_params d h self of
           Inl e \<Rightarrow> Inl e
         | Inr h1 \<Rightarrow> track_torch_params in_stateless_scope d h1 self)
      else Inr h)"

definition post_untrack_variable ::
  "bool \<Rightarrow> nat \<Rightarrow> heap \<Rightarrow> addr \<Rightarrow> variable \<Rightarrow> error + heap" where
  "post_untrack_variable in_stateless_scope d h self variable =
     (if torch_params_tracked h self then
        (case untrack_torch_params d h self of
           Inl e \<Rightarrow> Inl e
         | Inr h1 \<Rightarrow> track_torch_params in_stateless_scope d h1 self)
      else Inr h)"

text \<open>\<^verbatim>\<open>forward\<close> hands its arguments to \<^verbatim>\<open>Operation.__call__\<close>, which is defined
  outside this file; it touches none of the state above and has no model here.\<close>

subsection \<open>The attribute hook\<close>

text \<open>The values that can be assigned to an attribute, by the classes that
  \<^verbatim>\<open>_setattr_hook\<close> tests. A keras \<^verbatim>\<open>Layer\<close> is a \<^verbatim>\<open>torch.nn.Module\<close> (through
  \<^verbatim>\<open>TorchLayer\<close>), and \<^verbatim>\<open>TorchModuleWrapper\<close> is a \<^verbatim>\<open>Layer\<close> that holds the
  module it wraps; both classes are defined outside this file.\<close>

datatype pyval =
    PlainObject nat
  | TorchModule nat
  | KerasLayer addr
  | TorchModuleWrapper pyval

fun isinstance_Module :: "pyval \<Rightarrow> bool" where
  "isinstance_Module (PlainObject _) = False"
| "isinstance_Module _ = True"

fun isinstance_Layer :: "pyval \<Rightarrow> bool" where
  "isinstance_Layer (KerasLayer _) = True"
| "isinstance_Layer (TorchModuleWrapper _) = True"
| "isinstance_Layer _ = False"

fun isinstance_TorchModuleWrapper :: "pyval \<Rightarrow> bool" where
  "isinstance_TorchModuleWrapper (TorchModuleWrapper _) = True"
| "isinstance_TorchModuleWrapper _ = False"

text \<open>\<^verbatim>\<open>_setattr_hook\<close>, called on the layer \<open>self\<close> with the attribute's name and the
  value assigned; it returns the pair of the name and the value to store.\<close>

definition setattr_hook :: "pyval \<Rightarrow> string \<Rightarrow> pyval \<Rightarrow> string \<times> pyval" where
  "setattr_hook self name v =
     (if isinstance_Module v \<and> \<not> isinstance_Layer v \<and> \<not> name = ''torch_params''
      then (if \<not> isinstance_TorchModuleWrapper self then (name, TorchModuleWrapper v)
            else (name, v))
      else (name, v))"

subsection \<open>The enumeration that \<^verbatim>\<open>named_parameters\<close> delegates to\<close>

text \<open>Modelled from the spec: \<^verbatim>\<open>torch.nn.Module.named_parameters\<close>, which
  \<^verbatim>\<open>named_parameters\<close> calls and which is torch's code, outside this file. The spec says
  that \<^verbatim>\<open>named_parameters\<close> ``delegates enumeration to the native runtime's own traversal,
  which walks the now-consistent snapshot tree, applies \<^verbatim>\<open>prefix\<close> to qualify names
  hierarchically, restricts to local-only when \<^verbatim>\<open>recurse\<close> is false, and removes handles
  already yielded (by identity) when \<^verbatim>\<open>remove_duplicate\<close> is true''. The definitions
  follow torch's \<^verbatim>\<open>named_modules\<close> and \<^verbatim>\<open>_named_members\<close>, which do this: the traversal
  reads the registry \<^verbatim>\<open>_modules\<close> of every module it meets and the items of every
  \<^verbatim>\<open>ParameterList\<close>, and the names it gives are the attribute names along the path and
  the index in the list, joined by dots.\<close>

text \<open>Python's \<^verbatim>\<open>str(i)\<close> for an index: the decimal digits.\<close>

definition digit_char :: "nat \<Rightarrow> char" where
  "digit_char n = char_of (48 + n)"

function string_of_nat :: "nat \<Rightarrow> string" where
  "string_of_nat n =
     (if n < 10 then [digit_char n] else string_of_nat (n div 10) @ [digit_char (n mod 10)])"
  by pat_completeness auto
termination
  by (relation "measure id") auto

declare string_of_nat.simps [simp del]

text \<open>The modules that the traversal meets: a keras layer, or the \<^verbatim>\<open>ParameterList\<close> of
  one. Each is an object, named by its address.\<close>

datatype module = LayerModule addr | ParameterListModule addr

text \<open>\<^verbatim>\<open>prefix + ("." if prefix else "") + name\<close>.\<close>

definition join_prefix :: "string \<Rightarrow> string \<Rightarrow> string" where
  "join_prefix prefix name = prefix @ (if prefix = [] then [] else ''.'') @ name"

text \<open>\<^verbatim>\<open>module._modules.items()\<close>: the registry of a layer, in its order, with the
  \<^verbatim>\<open>ParameterList\<close> under the name \<^verbatim>\<open>torch_params\<close>; a \<^verbatim>\<open>ParameterList\<close> has no
  submodule.\<close>

definition submodules :: "heap \<Rightarrow> module \<Rightarrow> (string \<times> module) list" where
  "submodules h m =
     (case m of
        ParameterListModule p \<Rightarrow> []
      | LayerModule a \<Rightarrow>
          concat (map (\<lambda>e. case e of
                             SubLayer name c \<Rightarrow> [(name, LayerModule c)]
                           | TorchParams \<Rightarrow>
                               (case torch_params (layer_objs h a) of
                                  None \<Rightarrow> []
                                | Some p \<Rightarrow> [(''torch_params'', ParameterListModule p)]))
                     (modules (layer_objs h a))))"

text \<open>\<^verbatim>\<open>module._parameters.items()\<close>: a \<^verbatim>\<open>ParameterList\<close> holds its items under
  their indices, in order. A keras layer holds no parameter outside its
  \<^verbatim>\<open>ParameterList\<close>.\<close>

definition module_parameters :: "heap \<Rightarrow> module \<Rightarrow> (string \<times> addr) list" where
  "module_parameters h m =
     (case m of
        LayerModule a \<Rightarrow> []
      | ParameterListModule p \<Rightarrow>
          zip (map string_of_nat [0..<length (param_lists h p)]) (param_lists h p))"

text \<open>\<^verbatim>\<open>Module.named_modules(memo, prefix, remove_duplicate)\<close>: a module that is in
  \<^verbatim>\<open>memo\<close> yields nothing; otherwise the module is yielded, and then what its
  submodules yield, in the order of the registry. \<^verbatim>\<open>memo\<close> is a Python set that is only
  asked for membership, by identity, and that all the recursive calls share: it is a list
  of modules here, handed on with the result. The generator calls itself on the
  submodules; \<open>k\<close> bounds how deep.\<close>

fun named_modules ::
  "nat \<Rightarrow> heap \<Rightarrow> bool \<Rightarrow> string \<Rightarrow> module \<Rightarrow> module list
     \<Rightarrow> error + (string \<times> module) list \<times> module list" where
  "named_modules 0 h remove_duplicate prefix m memo = Inl RecursionError"
| "named_modules (Suc k) h remove_duplicate prefix m memo =
     (if m \<in> set memo then Inr ([], memo)
      else
        for_each
          (\<lambda>(out, memo1) (name, sub).
             case named_modules k h remove_duplicate (join_prefix prefix name) sub memo1 of
               Inl e \<Rightarrow> Inl e
             | Inr (ys, memo2) \<Rightarrow> Inr (out @ ys, memo2))
          ([(prefix, m)], if remove_duplicate then m # memo else memo)
          (submodules h m))"

text \<open>The loop of \<^verbatim>\<open>Module._named_members\<close> over the members found: a parameter that
  is in \<^verbatim>\<open>memo\<close> is skipped, and with \<^verbatim>\<open>remove_duplicate\<close> a parameter that is yielded
  is added to it. Membership is by identity again.\<close>

fun named_members :: "bool \<Rightarrow> addr list \<Rightarrow> (string \<times> addr) list \<Rightarrow> (string \<times> addr) list" where
  "named_members remove_duplicate memo [] = []"
| "named_members remove_duplicate memo ((name, v) # xs) =
     (if v \<in> set memo then named_members remove_duplicate memo xs
      else (name, v) # named_members remove_duplicate (if remove_duplicate then v # memo else memo) xs)"

text \<open>The members of the modules found, each under the prefix of its module.\<close>

definition members_of :: "heap \<Rightarrow> (string \<times> module) list \<Rightarrow> (string \<times> addr) list" where
  "members_of h ms =
     concat (map (\<lambda>(module_prefix, m).
                    map (\<lambda>(k, v). (join_prefix module_prefix k, v)) (module_parameters h m)) ms)"

text \<open>\<^verbatim>\<open>torch.nn.Module.named_parameters(self, prefix, recurse, remove_duplicate)\<close>.
  The call gives a generator, which \<^verbatim>\<open>named_parameters\<close> returns as it is; the value here
  is what running the generator on the store gives: the list of the pairs it yields, or
  the exception it raises.\<close>

definition Module_named_parameters ::
  "nat \<Rightarrow> heap \<Rightarrow> addr \<Rightarrow> string \<Rightarrow> bool \<Rightarrow> bool \<Rightarrow> error + (string \<times> addr) list" where
  "Module_named_parameters k h self prefix recurse remove_duplicate =
     (if recurse then
        (case named_modules k h remove_duplicate prefix (LayerModule self) [] of
           Inl e \<Rightarrow> Inl e
         | Inr (ms, memo) \<Rightarrow> Inr (named_members remove_duplicate [] (members_of h ms)))
      else Inr (named_members remove_duplicate [] (members_of h [(prefix, LayerModule self)])))"

section \<open>Notions used to state the properties\<close>

text \<open>Two layers that agree in every attribute but \<^verbatim>\<open>torch_params\<close>.\<close>

definition same_layer_data :: "layer \<Rightarrow> layer \<Rightarrow> bool" where
  "same_layer_data l l' =
     (layers l' = layers l \<and> trainable_variables l' = trainable_variables l
      \<and> non_trainable_variables l' = non_trainable_variables l
      \<and> seed_generators l' = seed_generators l \<and> built l' = built l)"

text \<open>What \<^verbatim>\<open>_track_torch_params\<close> can change between the store \<open>h\<close> it starts from
  and the store \<open>h'\<close> it returns: only \<^verbatim>\<open>torch_params\<close> of layers that had none, and
  only objects created since.\<close>

definition track_frame :: "heap \<Rightarrow> heap \<Rightarrow> bool" where
  "track_frame h h' =
     ((\<forall>b. same_layer_data (layer_objs h b) (layer_objs h' b)
           \<and> (torch_params_tracked h b \<longrightarrow>
                torch_params (layer_objs h' b) = torch_params (layer_objs h b)))
      \<and> tensor_store h' = tensor_store h
      \<and> next_obj h \<le> next_obj h'
      \<and> (\<forall>p < next_obj h. param_lists h' p = param_lists h p))"

text \<open>The layers below \<open>a\<close> are fewer than \<open>d\<close> levels deep: a call on \<open>a\<close> that
  recurses through the sublayers stays within the bound \<open>d\<close>. (A layer that is its own
  descendant fits no bound.)\<close>

fun depth_ok :: "nat \<Rightarrow> heap \<Rightarrow> addr \<Rightarrow> bool" where
  "depth_ok 0 h a = False"
| "depth_ok (Suc d) h a = (\<forall>c \<in> set (layers (layer_objs h a)). depth_ok d h c)"

text \<open>The same, and every layer reached has a snapshot.\<close>

fun subtree_tracked :: "nat \<Rightarrow> heap \<Rightarrow> addr \<Rightarrow> bool" where
  "subtree_tracked 0 h a = False"
| "subtree_tracked (Suc d) h a =
     (torch_params_tracked h a \<and> (\<forall>c \<in> set (layers (layer_objs h a)). subtree_tracked d h c))"

text \<open>The values that a layer's variables own, in the order of the snapshot.\<close>

definition own_handles :: "layer \<Rightarrow> addr list" where
  "own_handles l =
     map var_value (trainable_variables l) @ map var_value (non_trainable_variables l)
       @ map (\<lambda>sg. var_value (state sg)) (seed_generators l)"

text \<open>The layer has no snapshot, or its snapshot is an object created earlier that holds
  what a read of the layer's present variables in the scope \<open>s\<close> gives.\<close>

definition snapshot_current :: "bool \<Rightarrow> heap \<Rightarrow> addr \<Rightarrow> bool" where
  "snapshot_current s h a =
     (case torch_params (layer_objs h a) of
        None \<Rightarrow> True
      | Some p \<Rightarrow>
          p < next_obj h
          \<and> param_lists h p = parameter_list_items (Suc p) (collect_torch_params s (layer_objs h a)))"

text \<open>What \<^verbatim>\<open>_untrack_torch_params\<close> can change: it only removes
  \<^verbatim>\<open>torch_params\<close> attributes.\<close>

definition untrack_frame :: "heap \<Rightarrow> heap \<Rightarrow> bool" where
  "untrack_frame h h' =
     ((\<forall>b. same_layer_data (layer_objs h b) (layer_objs h' b)
           \<and> (torch_params_tracked h' b \<longrightarrow>
                torch_params (layer_objs h' b) = torch_params (layer_objs h b)))
      \<and> tensor_store h' = tensor_store h
      \<and> next_obj h' = next_obj h
      \<and> param_lists h' = param_lists h)"

text \<open>The layers that \<^verbatim>\<open>_track_torch_params\<close> and \<^verbatim>\<open>_untrack_torch_params\<close> visit
  from \<open>a\<close> within the bound \<open>d\<close>, in the order of the calls; a layer that is reached
  along two paths is listed twice.\<close>

fun subtree :: "nat \<Rightarrow> heap \<Rightarrow> addr \<Rightarrow> addr list" where
  "subtree 0 h a = []"
| "subtree (Suc d) h a = a # concat (map (subtree d h) (layers (layer_objs h a)))"

text \<open>The subtree invariant: a layer that has a snapshot has sublayers that all have
  one.\<close>

definition snapshot_closed :: "heap \<Rightarrow> bool" where
  "snapshot_closed h =
     (\<forall>a. torch_params_tracked h a \<longrightarrow>
          (\<forall>c \<in> set (layers (layer_objs h a)). torch_params_tracked h c))"

text \<open>Two stores with the same sublayer lists.\<close>

definition same_layers :: "heap \<Rightarrow> heap \<Rightarrow> bool" where
  "same_layers h h' = (\<forall>b. layers (layer_objs h' b) = layers (layer_objs h b))"

subsection \<open>Two runs\<close>

text \<open>The same variable with another object as its tensor.\<close>

definition rename :: "(addr \<Rightarrow> addr) \<Rightarrow> variable \<Rightarrow> variable" where
  "rename \<rho> v = v\<lparr>var_value := \<rho> (var_value v)\<rparr>"

text \<open>The renaming of the objects carried to what a read gives, to the entries of a
  registry, to the modules of the traversal and to the attributes of a layer: \<open>\<sigma>\<close>
  renames the layers, \<open>\<rho>\<close> the tensors and the parameter lists.\<close>

fun rename_tensor :: "(addr \<Rightarrow> addr) \<Rightarrow> tensor \<Rightarrow> tensor" where
  "rename_tensor \<rho> (Parameter p) = Parameter (\<rho> p)"
| "rename_tensor \<rho> Placeholder = Placeholder"

fun rename_entry :: "(addr \<Rightarrow> addr) \<Rightarrow> entry \<Rightarrow> entry" where
  "rename_entry \<sigma> (SubLayer name c) = SubLayer name (\<sigma> c)"
| "rename_entry \<sigma> TorchParams = TorchParams"

fun rename_module :: "(addr \<Rightarrow> addr) \<Rightarrow> (addr \<Rightarrow> addr) \<Rightarrow> module \<Rightarrow> module" where
  "rename_module \<sigma> \<rho> (LayerModule a) = LayerModule (\<sigma> a)"
| "rename_module \<sigma> \<rho> (ParameterListModule p) = ParameterListModule (\<rho> p)"

definition rename_layer :: "(addr \<Rightarrow> addr) \<Rightarrow> (addr \<Rightarrow> addr) \<Rightarrow> layer \<Rightarrow> layer" where
  "rename_layer \<sigma> \<rho> l =
     \<lparr>layers = map \<sigma> (layers l),
      trainable_variables = map (rename \<rho>) (trainable_variables l),
      non_trainable_variables = map (rename \<rho>) (non_trainable_variables l),
      seed_generators = map (\<lambda>sg. \<lparr>state = rename \<rho> (state sg)\<rparr>) (seed_generators l),
      built = built l,
      torch_params = map_option \<rho> (torch_params l),
      modules = map (rename_entry \<sigma>) (modules l)\<rparr>"

text \<open>Two runs of one program on one layer tree, \<open>h1\<close> the store of the first and \<open>h2\<close>
  that of the second. The runs hold the same layers with the same attribute names, the
  same variables and the same snapshots, but every object of the first run is another
  object in the second: the layer \<open>a\<close> is the layer \<open>\<sigma> a\<close> there, the tensor or
  parameter list \<open>p\<close> is \<open>\<rho> p\<close>, and the objects that the runs create from here on
  correspond in the order of their creation. Nothing is asked of \<open>\<sigma>\<close> and \<open>\<rho>\<close>
  on the objects that exist: the addresses of the second run can come in any order.\<close>

definition in_step :: "(addr \<Rightarrow> addr) \<Rightarrow> (addr \<Rightarrow> addr) \<Rightarrow> heap \<Rightarrow> heap \<Rightarrow> bool" where
  "in_step \<sigma> \<rho> h1 h2 =
     ((\<forall>a. layer_objs h2 (\<sigma> a) = rename_layer \<sigma> \<rho> (layer_objs h1 a))
      \<and> (\<forall>p. param_lists h2 (\<rho> p) = map \<rho> (param_lists h1 p))
      \<and> (\<forall>i. \<rho> (next_obj h1 + i) = next_obj h2 + i))"

text \<open>Two enumerations with the same names in the same order, whose handles correspond
  position by position.\<close>

definition same_enumeration ::
  "(addr \<Rightarrow> addr) \<Rightarrow> (string \<times> addr) list \<Rightarrow> (string \<times> addr) list \<Rightarrow> bool" where
  "same_enumeration \<rho> xs ys = (map fst ys = map fst xs \<and> map snd ys = map \<rho> (map snd xs))"

subsection \<open>Example stores\<close>

definition empty_layer :: layer where
  "empty_layer =
     \<lparr>layers = [], trainable_variables = [], non_trainable_variables = [],
      seed_generators = [], built = False, torch_params = None, modules = []\<rparr>"

definition mk_variable :: "string \<Rightarrow> addr \<Rightarrow> variable" where
  "mk_variable n p = \<lparr>path = n, var_value = p\<rparr>"

text \<open>A built layer at address 0 with trainable variables \<open>a\<close>, \<open>b\<close>, a non-trainable
  variable \<open>c\<close> and a seed generator \<open>s\<close>; its sublayers, at addresses 1 and 2, hold one
  trainable variable \<open>w\<close> and one non-trainable variable \<open>b\<close>. No layer has a snapshot.\<close>

definition example_heap :: heap where
  "example_heap =
     \<lparr>layer_objs = (\<lambda>_. empty_layer)
        (0 := \<lparr>layers = [1, 2],
                trainable_variables = [mk_variable ''a'' 10, mk_variable ''b'' 11],
                non_trainable_variables = [mk_variable ''c'' 12],
                seed_generators = [\<lparr>state = mk_variable ''s'' 13\<rparr>],
                built = True, torch_params = None,
                modules = [SubLayer ''first'' 1, SubLayer ''second'' 2]\<rparr>,
         1 := empty_layer\<lparr>trainable_variables := [mk_variable ''w'' 20], built := True\<rparr>,
         2 := empty_layer\<lparr>non_trainable_variables := [mk_variable ''b'' 21], built := True\<rparr>),
      param_lists = (\<lambda>_. []),
      tensor_store = (\<lambda>_. []),
      next_obj = 100\<rparr>"

text \<open>The same store after \<^verbatim>\<open>_track_torch_params\<close> on the layer at address 0,
  outside a stateless scope.\<close>

definition example_exposed :: heap where
  "example_exposed =
     set_torch_params
       (set_torch_params (set_torch_params example_heap 1 [Parameter 20]) 2 [Parameter 21]) 0
       [Parameter 10, Parameter 11, Parameter 12, Parameter 13]"

text \<open>The store \<open>example_exposed\<close> after \<^verbatim>\<open>_untrack_torch_params\<close> on the sublayer at
  address 1 alone.\<close>

definition example_child_untracked :: heap where
  "example_child_untracked =
     example_exposed\<lparr>layer_objs :=
       (layer_objs example_exposed)
         (1 := (layer_objs example_exposed 1)\<lparr>torch_params := None, modules := []\<rparr>)\<rparr>"

text \<open>A shared sublayer: the layer at address 0 has the sublayers 1 and 2, and the layer at
  address 3 is a sublayer of both. No layer has a snapshot.\<close>

definition example_shared :: heap where
  "example_shared =
     \<lparr>layer_objs = (\<lambda>_. empty_layer)
        (0 := empty_layer\<lparr>layers := [1, 2], trainable_variables := [mk_variable ''a'' 10],
                          built := True,
                          modules := [SubLayer ''left'' 1, SubLayer ''right'' 2]\<rparr>,
         1 := empty_layer\<lparr>layers := [3], built := True, modules := [SubLayer ''inner'' 3]\<rparr>,
         2 := empty_layer\<lparr>layers := [3], built := True, modules := [SubLayer ''inner'' 3]\<rparr>,
         3 := empty_layer\<lparr>trainable_variables := [mk_variable ''w'' 30], built := True\<rparr>),
      param_lists = (\<lambda>_. []),
      tensor_store = (\<lambda>_. []),
      next_obj = 100\<rparr>"

text \<open>The same store after \<^verbatim>\<open>_track_torch_params\<close> on the layer at address 0, and then
  with a second trainable variable added to that layer's list, as keras does before it
  calls \<^verbatim>\<open>_post_track_variable\<close>.\<close>

definition example_shared_exposed :: heap where
  "example_shared_exposed =
     set_torch_params (set_torch_params (set_torch_params (set_torch_params
       example_shared 3 [Parameter 30]) 1 []) 2 []) 0 [Parameter 10]"

definition example_shared_changed :: heap where
  "example_shared_changed =
     example_shared_exposed\<lparr>layer_objs :=
       (layer_objs example_shared_exposed)(0 := (layer_objs example_shared_exposed 0)
          \<lparr>trainable_variables := [mk_variable ''a'' 10, mk_variable ''lora'' 40]\<rparr>)\<rparr>"

text \<open>The store \<open>example_exposed\<close> after a second seed generator was added to the layer
  at address 0: the snapshot is older than the list.\<close>

definition example_stale :: heap where
  "example_stale =
     example_exposed\<lparr>layer_objs :=
       (layer_objs example_exposed)(0 := (layer_objs example_exposed 0)
          \<lparr>seed_generators :=
             [\<lparr>state = mk_variable ''s'' 13\<rparr>, \<lparr>state = mk_variable ''t'' 14\<rparr>]\<rparr>)\<rparr>"

text \<open>The store \<open>example_heap\<close> after \<^verbatim>\<open>_track_torch_params\<close> on the layer at address 0
  inside a stateless scope.\<close>

definition example_exposed_stateless :: heap where
  "example_exposed_stateless =
     set_torch_params
       (set_torch_params (set_torch_params example_heap 1 [Placeholder]) 2 [Placeholder]) 0
       [Placeholder, Placeholder, Placeholder, Placeholder]"

text \<open>A second run on the tree of \<open>example_heap\<close>: the layers are at the addresses 7, 9
  and 8, the tensors of \<open>a\<close> and \<open>b\<close> have changed their order, and objects are created
  from the address 600 on.\<close>

definition example_layer_renaming :: "addr \<Rightarrow> addr" where
  "example_layer_renaming a = (if a = 0 then 7 else if a = 1 then 9 else if a = 2 then 8 else a + 10)"

definition example_renaming :: "addr \<Rightarrow> addr" where
  "example_renaming x = (if x = 10 then 511 else if x = 11 then 510 else x + 500)"

definition example_second_run :: heap where
  "example_second_run =
     \<lparr>layer_objs = (\<lambda>_. empty_layer)
        (7 := \<lparr>layers = [9, 8],
                trainable_variables = [mk_variable ''a'' 511, mk_variable ''b'' 510],
                non_trainable_variables = [mk_variable ''c'' 512],
                seed_generators = [\<lparr>state = mk_variable ''s'' 513\<rparr>],
                built = True, torch_params = None,
                modules = [SubLayer ''first'' 9, SubLayer ''second'' 8]\<rparr>,
         9 := empty_layer\<lparr>trainable_variables := [mk_variable ''w'' 520], built := True\<rparr>,
         8 := empty_layer\<lparr>non_trainable_variables := [mk_variable ''b'' 521], built := True\<rparr>),
      param_lists = (\<lambda>_. []),
      tensor_store = (\<lambda>_. []),
      next_obj = 600\<rparr>"

section \<open>Lemmas\<close>

subsection \<open>The loop\<close>

lemma for_each_invariant:
  assumes "for_each f s xs = Inr s'" and "P s"
    and "\<And>t x t'. x \<in> set xs \<Longrightarrow> P t \<Longrightarrow> f t x = Inr t' \<Longrightarrow> P t'"
  shows "P s'"
  using assms
proof (induction xs arbitrary: s)
  case Nil
  then show ?case by simp
next
  case (Cons x xs)
  from Cons.prems(1) obtain s1 where s1: "f s x = Inr s1" and rest: "for_each f s1 xs = Inr s'"
    by (auto split: sum.splits)
  have "P s1" using Cons.prems(3)[of x s s1] Cons.prems(2) s1 by simp
  then show ?case using Cons.IH[OF rest] Cons.prems(3) by auto
qed

lemma for_each_unchanged:
  "(\<And>x. x \<in> set xs \<Longrightarrow> f s x = Inr s) \<Longrightarrow> for_each f s xs = Inr s"
  by (induction xs) auto

lemma for_each_establishes:
  assumes "for_each f s xs = Inr s'"
    and step: "\<And>t x t'. x \<in> set xs \<Longrightarrow> f t x = Inr t' \<Longrightarrow> Q t' x"
    and mono: "\<And>t x y t'. y \<in> set xs \<Longrightarrow> f t y = Inr t' \<Longrightarrow> Q t x \<Longrightarrow> Q t' x"
  shows "\<forall>x \<in> set xs. Q s' x"
  using assms
proof (induction xs arbitrary: s)
  case Nil
  then show ?case by simp
next
  case (Cons x xs)
  from Cons.prems(1) obtain s1 where s1: "f s x = Inr s1" and rest: "for_each f s1 xs = Inr s'"
    by (auto split: sum.splits)
  have "Q s1 x" using Cons.prems(2)[of x s s1] s1 by simp
  then have here: "Q s' x"
    using for_each_invariant[OF rest, where P = "\<lambda>t. Q t x"] Cons.prems(3) by auto
  have "\<forall>y \<in> set xs. Q s' y"
  proof (rule Cons.IH[OF rest])
    fix t y t' assume "y \<in> set xs" "f t y = Inr t'"
    then show "Q t' y" using Cons.prems(2)[of y t t'] by simp
  next
    fix t y z t' assume "z \<in> set xs" "f t z = Inr t'" "Q t y"
    then show "Q t' y" using Cons.prems(3)[of z t t' y] by simp
  qed
  with here show ?case by simp
qed

lemma for_each_succeeds:
  assumes "P s"
    and "\<And>t x. x \<in> set xs \<Longrightarrow> P t \<Longrightarrow> \<exists>t'. f t x = Inr t' \<and> P t'"
  shows "\<exists>s'. for_each f s xs = Inr s' \<and> P s'"
  using assms
proof (induction xs arbitrary: s)
  case Nil
  then show ?case by simp
next
  case (Cons x xs)
  from Cons.prems obtain s1 where s1: "f s x = Inr s1" "P s1" by fastforce
  from Cons.IH[OF s1(2)] Cons.prems(2) obtain s' where "for_each f s1 xs = Inr s'" "P s'"
    by auto
  with s1 show ?case by auto
qed

lemma for_each_error:
  "for_each f s xs = Inl e \<Longrightarrow> \<exists>t x. x \<in> set xs \<and> f t x = Inl e"
proof (induction xs arbitrary: s)
  case Nil
  then show ?case by simp
next
  case (Cons x xs)
  show ?case
  proof (cases "f s x")
    case (Inl e')
    with Cons.prems show ?thesis by auto
  next
    case (Inr s1)
    with Cons.prems have "for_each f s1 xs = Inl e" by simp
    from Cons.IH[OF this] show ?thesis by auto
  qed
qed

subsection \<open>What tracking changes, and when it returns\<close>

lemma track_frame_refl: "track_frame h h"
  by (simp add: track_frame_def same_layer_data_def)

lemma track_frame_trans: "track_frame h h1 \<Longrightarrow> track_frame h1 h2 \<Longrightarrow> track_frame h h2"
  unfolding track_frame_def same_layer_data_def torch_params_tracked_def
  by (metis (no_types, lifting) order_trans less_le_trans)

lemma track_frame_set:
  "\<not> torch_params_tracked h a \<Longrightarrow> track_frame h (set_torch_params h a ps)"
  by (auto simp: track_frame_def same_layer_data_def set_torch_params_def torch_params_tracked_def)

lemma track_frame_track: "track_torch_params s d h a = Inr h' \<Longrightarrow> track_frame h h'"
proof (induction d arbitrary: h a h')
  case 0
  then show ?case by simp
next
  case (Suc d)
  from Suc.prems obtain h1 where
    loop: "for_each (track_torch_params s d) h (layers (layer_objs h a)) = Inr h1"
    and fin: "h' = (if torch_params_tracked h1 a then h1
                    else set_torch_params h1 a (collect_torch_params s (layer_objs h1 a)))"
    by (auto split: sum.splits if_splits)
  have "track_frame h h1"
    by (rule for_each_invariant[OF loop, where P = "track_frame h"])
       (auto intro: track_frame_refl track_frame_trans Suc.IH)
  then show ?case using fin track_frame_set track_frame_trans by auto
qed

lemma track_frame_layers: "track_frame h h' \<Longrightarrow> layers (layer_objs h' b) = layers (layer_objs h b)"
  by (simp add: track_frame_def same_layer_data_def)

lemma track_frame_tracked:
  "track_frame h h' \<Longrightarrow> torch_params_tracked h b \<Longrightarrow> torch_params_tracked h' b"
  by (simp add: track_frame_def torch_params_tracked_def)

lemma depth_ok_frame: "track_frame h h' \<Longrightarrow> depth_ok d h' a = depth_ok d h a"
  by (induction d arbitrary: a) (auto simp: track_frame_layers)

lemma subtree_tracked_frame:
  "track_frame h h' \<Longrightarrow> subtree_tracked d h a \<Longrightarrow> subtree_tracked d h' a"
  by (induction d arbitrary: a) (auto simp: track_frame_layers track_frame_tracked)

lemma subtree_tracked_depth_ok: "subtree_tracked d h a \<Longrightarrow> depth_ok d h a"
  by (induction d arbitrary: a) auto

lemma track_tracked_unchanged: "subtree_tracked d h a \<Longrightarrow> track_torch_params s d h a = Inr h"
proof (induction d arbitrary: a)
  case 0
  then show ?case by simp
next
  case (Suc d)
  then have "for_each (track_torch_params s d) h (layers (layer_objs h a)) = Inr h"
    by (intro for_each_unchanged) auto
  with Suc.prems show ?case by simp
qed

lemma track_subtree_tracked: "track_torch_params s d h a = Inr h' \<Longrightarrow> subtree_tracked d h' a"
proof (induction d arbitrary: h a h')
  case 0
  then show ?case by simp
next
  case (Suc d)
  let ?cs = "layers (layer_objs h a)"
  from Suc.prems obtain h1 where
    loop: "for_each (track_torch_params s d) h ?cs = Inr h1"
    and fin: "h' = (if torch_params_tracked h1 a then h1
                    else set_torch_params h1 a (collect_torch_params s (layer_objs h1 a)))"
    by (auto split: sum.splits if_splits)
  have kids: "\<forall>c \<in> set ?cs. subtree_tracked d h1 c"
    by (rule for_each_establishes[OF loop])
       (auto intro: Suc.IH subtree_tracked_frame dest: track_frame_track)
  have f1: "track_frame h h1"
    by (rule for_each_invariant[OF loop, where P = "track_frame h"])
       (auto intro: track_frame_refl track_frame_trans track_frame_track)
  have f2: "track_frame h1 h'"
    using fin by (auto intro: track_frame_refl track_frame_set)
  have "torch_params_tracked h' a"
    using fin by (auto simp: set_torch_params_def torch_params_tracked_def)
  moreover have "\<forall>c \<in> set (layers (layer_objs h' a)). subtree_tracked d h' c"
    using kids f1 f2 by (auto simp: track_frame_layers intro: subtree_tracked_frame)
  ultimately show ?case by simp
qed

lemma track_succeeds: "depth_ok d h a \<Longrightarrow> \<exists>h'. track_torch_params s d h a = Inr h'"
proof (induction d arbitrary: h a)
  case 0
  then show ?case by simp
next
  case (Suc d)
  have "\<exists>h1. for_each (track_torch_params s d) h (layers (layer_objs h a)) = Inr h1
          \<and> track_frame h h1"
  proof (rule for_each_succeeds)
    show "track_frame h h" by (rule track_frame_refl)
  next
    fix t x
    assume x: "x \<in> set (layers (layer_objs h a))" and t: "track_frame h t"
    from Suc.prems x have "depth_ok d h x" by simp
    with t have "depth_ok d t x" by (simp add: depth_ok_frame)
    from Suc.IH[OF this] obtain t' where t': "track_torch_params s d t x = Inr t'" by blast
    with t have "track_frame h t'" by (blast intro: track_frame_trans track_frame_track)
    with t' show "\<exists>t'. track_torch_params s d t x = Inr t' \<and> track_frame h t'" by blast
  qed
  then show ?case by auto
qed

subsection \<open>The contents of the snapshot\<close>

lemma collect_same_data:
  "same_layer_data l l' \<Longrightarrow> collect_torch_params s l' = collect_torch_params s l"
  by (simp add: same_layer_data_def collect_torch_params_def)

lemma collect_torch_params_update [simp]:
  "collect_torch_params s (l\<lparr>torch_params := t, modules := ms\<rparr>) = collect_torch_params s l"
  "collect_torch_params s (l\<lparr>torch_params := t\<rparr>) = collect_torch_params s l"
  by (simp_all add: collect_torch_params_def)

lemma items_parameters [simp]: "parameter_list_items n (map Parameter ps) = ps"
  by (induction ps) auto

lemma new_parameters_parameters [simp]: "new_parameters (map Parameter ps) = 0"
  by (induction ps) (auto simp: new_parameters_def)

lemma length_items [simp]: "length (parameter_list_items n xs) = length xs"
  by (induction n xs rule: parameter_list_items.induct) auto

lemma collect_eager: "collect_torch_params False l = map Parameter (own_handles l)"
  by (simp add: collect_torch_params_def variable_value_def own_handles_def)

lemma length_collect:
  "length (collect_torch_params s l)
     = length (trainable_variables l) + length (non_trainable_variables l)
       + length (seed_generators l)"
  by (simp add: collect_torch_params_def)

lemma set_keeps_current:
  assumes "\<not> torch_params_tracked h a" and "snapshot_current s h b"
  shows "snapshot_current s (set_torch_params h a (collect_torch_params s (layer_objs h a))) b"
  using assms
  by (auto simp: snapshot_current_def set_torch_params_def torch_params_tracked_def
        split: option.splits)

lemma track_keeps_current:
  "track_torch_params s d h a = Inr h' \<Longrightarrow> snapshot_current s h b \<Longrightarrow> snapshot_current s h' b"
proof (induction d arbitrary: h a h')
  case 0
  then show ?case by simp
next
  case (Suc d)
  from Suc.prems(1) obtain h1 where
    loop: "for_each (track_torch_params s d) h (layers (layer_objs h a)) = Inr h1"
    and fin: "h' = (if torch_params_tracked h1 a then h1
                    else set_torch_params h1 a (collect_torch_params s (layer_objs h1 a)))"
    by (auto split: sum.splits if_splits)
  have "snapshot_current s h1 b"
    by (rule for_each_invariant[OF loop, where P = "\<lambda>t. snapshot_current s t b"])
       (auto intro: Suc.IH Suc.prems(2))
  then show ?case using fin by (auto intro: set_keeps_current)
qed

lemma track_error: "track_torch_params s d h a = Inl e \<Longrightarrow> e = RecursionError"
proof (induction d arbitrary: h a)
  case 0
  then show ?case by simp
next
  case (Suc d)
  then show ?case by (auto split: sum.splits if_splits dest!: for_each_error)
qed

lemma track_tracked: "track_torch_params s d h a = Inr h' \<Longrightarrow> torch_params_tracked h' a"
  using track_subtree_tracked[of s d h a h'] by (cases d) auto

subsection \<open>The example with two sublayers\<close>

lemmas example_defs = example_heap_def example_exposed_def empty_layer_def mk_variable_def
  set_torch_params_def torch_params_tracked_def collect_torch_params_def variable_value_def
  new_parameters_def register_torch_params_def

lemma example_track: "track_torch_params False 2 example_heap 0 = Inr example_exposed"
  by (simp add: example_defs numeral_2_eq_2)

lemma example_depth_ok: "depth_ok 2 example_heap 0"
  by (simp add: example_defs numeral_2_eq_2)

subsection \<open>What untracking changes\<close>

lemma untrack_frame_refl: "untrack_frame h h"
  by (simp add: untrack_frame_def same_layer_data_def)

lemma untrack_frame_trans:
  "untrack_frame h h1 \<Longrightarrow> untrack_frame h1 h2 \<Longrightarrow> untrack_frame h h2"
  unfolding untrack_frame_def same_layer_data_def torch_params_tracked_def
  by (metis (no_types, lifting))

lemma untrack_frame_del: "del_torch_params h a = Inr h' \<Longrightarrow> untrack_frame h h'"
  by (auto simp: untrack_frame_def same_layer_data_def del_torch_params_def
        torch_params_tracked_def split: if_splits)

lemma untrack_frame_untrack: "untrack_torch_params d h a = Inr h' \<Longrightarrow> untrack_frame h h'"
proof (induction d arbitrary: h a h')
  case 0
  then show ?case by simp
next
  case (Suc d)
  from Suc.prems obtain h1 where
    loop: "for_each (untrack_torch_params d) h (layers (layer_objs h a)) = Inr h1"
    and fin: "del_torch_params h1 a = Inr h'"
    by (auto split: sum.splits)
  have "untrack_frame h h1"
    by (rule for_each_invariant[OF loop, where P = "untrack_frame h"])
       (auto intro: untrack_frame_refl untrack_frame_trans Suc.IH)
  then show ?case using fin untrack_frame_del untrack_frame_trans by blast
qed

lemma untrack_frame_not_tracked:
  "untrack_frame h h' \<Longrightarrow> \<not> torch_params_tracked h b \<Longrightarrow> \<not> torch_params_tracked h' b"
  by (auto simp: untrack_frame_def torch_params_tracked_def)

lemma untrack_needs_snapshot:
  assumes "\<not> torch_params_tracked h a"
  shows "\<exists>e. untrack_torch_params d h a = Inl e"
proof (cases d)
  case 0
  then show ?thesis by simp
next
  case (Suc d')
  show ?thesis
  proof (cases "for_each (untrack_torch_params d') h (layers (layer_objs h a))")
    case (Inl e)
    with Suc show ?thesis by simp
  next
    case (Inr h1)
    have "untrack_frame h h1"
      by (rule for_each_invariant[OF Inr, where P = "untrack_frame h"])
         (auto intro: untrack_frame_refl untrack_frame_trans untrack_frame_untrack)
    then have "\<not> torch_params_tracked h1 a"
      using assms by (rule untrack_frame_not_tracked)
    with Suc Inr show ?thesis by (simp add: del_torch_params_def)
  qed
qed

subsection \<open>Wrapping\<close>

lemma wrapper_neq: "TorchModuleWrapper v \<noteq> v"
  by (induction v) auto

lemma track_current_snapshot:
  assumes "track_torch_params s d h a = Inr h'" and "snapshot_current s h a"
  shows "\<exists>p. torch_params (layer_objs h' a) = Some p
           \<and> param_lists h' p
               = parameter_list_items (Suc p) (collect_torch_params s (layer_objs h' a))"
proof -
  have cur: "snapshot_current s h' a" using assms by (rule track_keeps_current)
  have "torch_params_tracked h' a" using assms(1) by (rule track_tracked)
  then obtain p where "torch_params (layer_objs h' a) = Some p"
    by (auto simp: torch_params_tracked_def)
  with cur show ?thesis by (simp add: snapshot_current_def)
qed

subsection \<open>The layers visited, and the subtree invariant\<close>

lemma subtree_same_layers: "same_layers h h' \<Longrightarrow> subtree d h' a = subtree d h a"
proof (induction d arbitrary: a)
  case 0
  then show ?case by simp
next
  case (Suc d)
  have "subtree d h' = subtree d h"
    by (rule ext) (rule Suc.IH[OF Suc.prems])
  with Suc.prems show ?case by (simp add: same_layers_def)
qed

lemma depth_ok_same_layers: "same_layers h h' \<Longrightarrow> depth_ok d h' a = depth_ok d h a"
  by (induction d arbitrary: a) (auto simp: same_layers_def)

lemma track_frame_same_layers: "track_frame h h' \<Longrightarrow> same_layers h h'"
  by (simp add: same_layers_def track_frame_layers)

lemma untrack_frame_same_layers: "untrack_frame h h' \<Longrightarrow> same_layers h h'"
  by (simp add: same_layers_def untrack_frame_def same_layer_data_def)

lemma subtree_tracked_members:
  "subtree_tracked d h a \<Longrightarrow> x \<in> set (subtree d h a) \<Longrightarrow>
     torch_params_tracked h x \<and> (\<forall>c \<in> set (layers (layer_objs h x)). torch_params_tracked h c)"
proof (induction d arbitrary: a)
  case 0
  then show ?case by simp
next
  case (Suc d)
  show ?case
  proof (cases "x = a")
    case True
    have "torch_params_tracked h c" if "c \<in> set (layers (layer_objs h a))" for c
    proof -
      from Suc.prems(1) that have "subtree_tracked d h c" by simp
      then show ?thesis by (cases d) auto
    qed
    with True Suc.prems(1) show ?thesis by simp
  next
    case False
    with Suc.prems(2) obtain c where "c \<in> set (layers (layer_objs h a))" "x \<in> set (subtree d h c)"
      by auto
    with Suc.prems(1) Suc.IH[of c] show ?thesis by simp
  qed
qed

lemma closed_subtree_tracked:
  "snapshot_closed h \<Longrightarrow> torch_params_tracked h a \<Longrightarrow> x \<in> set (subtree d h a) \<Longrightarrow>
     torch_params_tracked h x"
proof (induction d arbitrary: a)
  case 0
  then show ?case by simp
next
  case (Suc d)
  show ?case
  proof (cases "x = a")
    case True
    with Suc.prems show ?thesis by simp
  next
    case False
    with Suc.prems(3) obtain c where c: "c \<in> set (layers (layer_objs h a))" "x \<in> set (subtree d h c)"
      by auto
    with Suc.prems(1,2) have "torch_params_tracked h c" by (auto simp: snapshot_closed_def)
    from Suc.IH[OF Suc.prems(1) this c(2)] show ?thesis .
  qed
qed

lemma track_gains:
  "track_torch_params s d h a = Inr h' \<Longrightarrow> torch_params_tracked h' x \<Longrightarrow>
     torch_params_tracked h x \<or> x \<in> set (subtree d h a)"
proof (induction d arbitrary: h a h')
  case 0
  then show ?case by simp
next
  case (Suc d)
  let ?cs = "layers (layer_objs h a)"
  let ?S = "set (concat (map (subtree d h) ?cs))"
  from Suc.prems(1) obtain h1 where
    loop: "for_each (track_torch_params s d) h ?cs = Inr h1"
    and fin: "h' = (if torch_params_tracked h1 a then h1
                    else set_torch_params h1 a (collect_torch_params s (layer_objs h1 a)))"
    by (auto split: sum.splits if_splits)
  have "track_frame h h1 \<and> (torch_params_tracked h1 x \<longrightarrow> torch_params_tracked h x \<or> x \<in> ?S)"
  proof (rule for_each_invariant[OF loop,
        where P = "\<lambda>t. track_frame h t \<and> (torch_params_tracked t x \<longrightarrow> torch_params_tracked h x \<or> x \<in> ?S)"])
    show "track_frame h h \<and> (torch_params_tracked h x \<longrightarrow> torch_params_tracked h x \<or> x \<in> ?S)"
      by (simp add: track_frame_refl)
  next
    fix t c t'
    assume c: "c \<in> set ?cs"
      and t: "track_frame h t \<and> (torch_params_tracked t x \<longrightarrow> torch_params_tracked h x \<or> x \<in> ?S)"
      and s: "track_torch_params s d t c = Inr t'"
    have f: "track_frame h t'" using t s track_frame_track track_frame_trans by blast
    have "subtree d t c = subtree d h c"
      using t by (simp add: subtree_same_layers track_frame_same_layers)
    with Suc.IH[OF s] c t
    have "torch_params_tracked t' x \<longrightarrow> torch_params_tracked h x \<or> x \<in> ?S"
      by auto
    with f show "track_frame h t' \<and> (torch_params_tracked t' x \<longrightarrow> torch_params_tracked h x \<or> x \<in> ?S)"
      by simp
  qed
  moreover have "torch_params_tracked h' x \<longrightarrow> torch_params_tracked h1 x \<or> x = a"
    using fin by (auto simp: set_torch_params_def torch_params_tracked_def)
  ultimately show ?case using Suc.prems(2) by auto
qed

lemma untrack_outside:
  "untrack_torch_params d h a = Inr h' \<Longrightarrow> x \<notin> set (subtree d h a) \<Longrightarrow>
     layer_objs h' x = layer_objs h x"
proof (induction d arbitrary: h a h')
  case 0
  then show ?case by simp
next
  case (Suc d)
  let ?cs = "layers (layer_objs h a)"
  from Suc.prems(1) obtain h1 where
    loop: "for_each (untrack_torch_params d) h ?cs = Inr h1"
    and fin: "del_torch_params h1 a = Inr h'"
    by (auto split: sum.splits)
  have "untrack_frame h h1 \<and> layer_objs h1 x = layer_objs h x"
  proof (rule for_each_invariant[OF loop,
        where P = "\<lambda>t. untrack_frame h t \<and> layer_objs t x = layer_objs h x"])
    show "untrack_frame h h \<and> layer_objs h x = layer_objs h x"
      by (simp add: untrack_frame_refl)
  next
    fix t c t'
    assume c: "c \<in> set ?cs"
      and t: "untrack_frame h t \<and> layer_objs t x = layer_objs h x"
      and s: "untrack_torch_params d t c = Inr t'"
    have f: "untrack_frame h t'" using t s untrack_frame_untrack untrack_frame_trans by blast
    have "subtree d t c = subtree d h c"
      using t by (simp add: subtree_same_layers untrack_frame_same_layers)
    with Suc.prems(2) c have "x \<notin> set (subtree d t c)" by auto
    with Suc.IH[OF s] t f show "untrack_frame h t' \<and> layer_objs t' x = layer_objs h x"
      by simp
  qed
  moreover have "layer_objs h' x = layer_objs h1 x"
    using fin Suc.prems(2) by (auto simp: del_torch_params_def split: if_splits)
  ultimately show ?case by simp
qed


lemma untrack_children_succeed:
  assumes IH: "\<And>t c. distinct (subtree d t c) \<Longrightarrow>
            \<forall>x \<in> set (subtree d t c). torch_params_tracked t x \<Longrightarrow> depth_ok d t c \<Longrightarrow>
            \<exists>t'. untrack_torch_params d t c = Inr t'
                 \<and> (\<forall>x \<in> set (subtree d t c). \<not> torch_params_tracked t' x)"
    and "distinct (concat (map (subtree d t) cs))"
    and "\<forall>x \<in> set (concat (map (subtree d t) cs)). torch_params_tracked t x"
    and "\<forall>c \<in> set cs. depth_ok d t c"
  shows "\<exists>t'. for_each (untrack_torch_params d) t cs = Inr t' \<and> untrack_frame t t'
           \<and> (\<forall>x \<in> set (concat (map (subtree d t) cs)). \<not> torch_params_tracked t' x)
           \<and> (\<forall>x. x \<notin> set (concat (map (subtree d t) cs)) \<longrightarrow> layer_objs t' x = layer_objs t x)"
  using assms(2-4)
proof (induction cs arbitrary: t)
  case Nil
  then show ?case by (simp add: untrack_frame_refl)
next
  case (Cons c cs)
  let ?rest = "concat (map (subtree d t) cs)"
  from Cons.prems have dc: "distinct (subtree d t c)" and dr: "distinct ?rest"
    and disj: "set (subtree d t c) \<inter> set ?rest = {}"
    by auto
  from IH[OF dc] Cons.prems obtain t1 where
    u: "untrack_torch_params d t c = Inr t1"
    and gone: "\<forall>x \<in> set (subtree d t c). \<not> torch_params_tracked t1 x"
    by auto
  have f1: "untrack_frame t t1" using u by (rule untrack_frame_untrack)
  then have sl: "same_layers t t1" by (rule untrack_frame_same_layers)
  have out: "layer_objs t1 x = layer_objs t x" if "x \<notin> set (subtree d t c)" for x
    using untrack_outside[OF u that] .
  have st: "subtree d t1 = subtree d t"
    by (rule ext) (rule subtree_same_layers[OF sl])
  have p1: "distinct (concat (map (subtree d t1) cs))" using dr st by simp
  have p2: "\<forall>x \<in> set (concat (map (subtree d t1) cs)). torch_params_tracked t1 x"
  proof
    fix x assume x: "x \<in> set (concat (map (subtree d t1) cs))"
    then have xr: "x \<in> set ?rest" using st by simp
    with disj have "x \<notin> set (subtree d t c)" by auto
    then have "layer_objs t1 x = layer_objs t x" by (rule out)
    moreover have "torch_params_tracked t x" using Cons.prems(2) xr by simp
    ultimately show "torch_params_tracked t1 x" by (simp add: torch_params_tracked_def)
  qed
  have p3: "\<forall>c \<in> set cs. depth_ok d t1 c"
    using Cons.prems(3) depth_ok_same_layers[OF sl] by simp
  from Cons.IH[OF p1 p2 p3] obtain t' where
    loop: "for_each (untrack_torch_params d) t1 cs = Inr t'"
    and f2: "untrack_frame t1 t'"
    and gone2: "\<forall>x \<in> set (concat (map (subtree d t1) cs)). \<not> torch_params_tracked t' x"
    and out2: "\<forall>x. x \<notin> set (concat (map (subtree d t1) cs)) \<longrightarrow> layer_objs t' x = layer_objs t1 x"
    by blast
  have "for_each (untrack_torch_params d) t (c # cs) = Inr t'" using u loop by simp
  moreover have "untrack_frame t t'" using f1 f2 by (rule untrack_frame_trans)
  moreover have "\<forall>x \<in> set (concat (map (subtree d t) (c # cs))). \<not> torch_params_tracked t' x"
    using gone gone2 st untrack_frame_not_tracked[OF f2] by auto
  moreover have "\<forall>x. x \<notin> set (concat (map (subtree d t) (c # cs))) \<longrightarrow> layer_objs t' x = layer_objs t x"
    using out out2 st by auto
  ultimately show ?case by blast
qed

lemma untrack_succeeds:
  "distinct (subtree d h a) \<Longrightarrow> \<forall>x \<in> set (subtree d h a). torch_params_tracked h x \<Longrightarrow>
   depth_ok d h a \<Longrightarrow>
   \<exists>h'. untrack_torch_params d h a = Inr h'
        \<and> (\<forall>x \<in> set (subtree d h a). \<not> torch_params_tracked h' x)"
proof (induction d arbitrary: h a)
  case 0
  then show ?case by simp
next
  case (Suc d)
  let ?cs = "layers (layer_objs h a)"
  let ?S = "concat (map (subtree d h) ?cs)"
  from Suc.prems have d1: "distinct ?S" and a: "a \<notin> set ?S"
    and tr: "\<forall>x \<in> set ?S. torch_params_tracked h x" and ta: "torch_params_tracked h a"
    and dk: "\<forall>c \<in> set ?cs. depth_ok d h c"
    by auto
  from untrack_children_succeed[of d h ?cs, OF Suc.IH d1 tr dk] obtain h1 where
    loop: "for_each (untrack_torch_params d) h ?cs = Inr h1"
    and gone: "\<forall>x \<in> set ?S. \<not> torch_params_tracked h1 x"
    and out: "\<forall>x. x \<notin> set ?S \<longrightarrow> layer_objs h1 x = layer_objs h x"
    by blast
  have "torch_params_tracked h1 a" using out a ta by (simp add: torch_params_tracked_def)
  then obtain h' where del: "del_torch_params h1 a = Inr h'"
    and h': "torch_params (layer_objs h' a) = None"
      "\<And>x. x \<noteq> a \<Longrightarrow> layer_objs h' x = layer_objs h1 x"
    by (simp add: del_torch_params_def)
  have "untrack_torch_params (Suc d) h a = Inr h'" using loop del by simp
  moreover have "\<not> torch_params_tracked h' x" if "x \<in> set (subtree (Suc d) h a)" for x
  proof (cases "x = a")
    case True
    with h'(1) show ?thesis by (simp add: torch_params_tracked_def)
  next
    case False
    with that have "x \<in> set ?S" by simp
    with gone have "\<not> torch_params_tracked h1 x" by blast
    with h'(2)[OF False] show ?thesis by (simp add: torch_params_tracked_def)
  qed
  ultimately show ?case by blast
qed

lemma track_closed:
  assumes "snapshot_closed h" and t: "track_torch_params s d h b = Inr h'"
  shows "snapshot_closed h'"
  unfolding snapshot_closed_def
proof (intro allI impI ballI)
  fix x c assume x: "torch_params_tracked h' x" and c: "c \<in> set (layers (layer_objs h' x))"
  have f: "track_frame h h'" using t by (rule track_frame_track)
  have st: "subtree_tracked d h' b" using t by (rule track_subtree_tracked)
  have c': "c \<in> set (layers (layer_objs h x))" using c f by (simp add: track_frame_layers)
  from track_gains[OF t x] show "torch_params_tracked h' c"
  proof
    assume "torch_params_tracked h x"
    with assms(1) c' have "torch_params_tracked h c" by (auto simp: snapshot_closed_def)
    with f show ?thesis by (rule track_frame_tracked)
  next
    assume "x \<in> set (subtree d h b)"
    then have "x \<in> set (subtree d h' b)"
      using subtree_same_layers[OF track_frame_same_layers[OF f]] by simp
    from subtree_tracked_members[OF st this] c show ?thesis by simp
  qed
qed

lemma retrack_closed:
  assumes cl: "snapshot_closed h" and tb: "torch_params_tracked h b"
    and u: "untrack_torch_params d h b = Inr h1" and t: "track_torch_params s d h1 b = Inr h'"
  shows "snapshot_closed h'"
  unfolding snapshot_closed_def
proof (intro allI impI ballI)
  fix x c assume x: "torch_params_tracked h' x" and c: "c \<in> set (layers (layer_objs h' x))"
  have f1: "untrack_frame h h1" using u by (rule untrack_frame_untrack)
  have f2: "track_frame h1 h'" using t by (rule track_frame_track)
  have sl: "same_layers h h'"
    using untrack_frame_same_layers[OF f1] track_frame_same_layers[OF f2]
    by (simp add: same_layers_def)
  have st: "subtree_tracked d h' b" using t by (rule track_subtree_tracked)
  have sub: "subtree d h' b = subtree d h b" using sl by (rule subtree_same_layers)
  have sub1: "subtree d h1 b = subtree d h b"
    using untrack_frame_same_layers[OF f1] by (rule subtree_same_layers)
  have c': "c \<in> set (layers (layer_objs h x))" using c sl by (simp add: same_layers_def)
  show "torch_params_tracked h' c"
  proof (cases "x \<in> set (subtree d h b)")
    case True
    then have "x \<in> set (subtree d h' b)" using sub by simp
    from subtree_tracked_members[OF st this] c show ?thesis by simp
  next
    case False
    with track_gains[OF t x] sub1 have "torch_params_tracked h1 x" by auto
    then have "torch_params_tracked h x"
      using untrack_frame_not_tracked[OF f1] by blast
    with cl c' have hc: "torch_params_tracked h c" by (auto simp: snapshot_closed_def)
    show ?thesis
    proof (cases "c \<in> set (subtree d h b)")
      case True
      then have "c \<in> set (subtree d h' b)" using sub by simp
      from subtree_tracked_members[OF st this] show ?thesis by simp
    next
      case False
      from untrack_outside[OF u False] hc have "torch_params_tracked h1 c"
        by (simp add: torch_params_tracked_def)
      with f2 show ?thesis by (rule track_frame_tracked)
    qed
  qed
qed

subsection \<open>The example with a shared sublayer\<close>

lemmas example_shared_defs = example_shared_def example_shared_exposed_def
  example_shared_changed_def empty_layer_def mk_variable_def
  set_torch_params_def torch_params_tracked_def collect_torch_params_def del_torch_params_def
  variable_value_def new_parameters_def register_torch_params_def

lemma example_closed: "snapshot_closed example_heap"
  by (simp add: snapshot_closed_def example_defs)

subsection \<open>Rebuilding after a change\<close>

lemma track_fresh:
  "track_torch_params s d h a = Inr h' \<Longrightarrow> \<not> torch_params_tracked h x \<Longrightarrow>
     torch_params (layer_objs h' x) = Some p \<Longrightarrow> next_obj h \<le> p"
proof (induction d arbitrary: h a h')
  case 0
  then show ?case by simp
next
  case (Suc d)
  let ?cs = "layers (layer_objs h a)"
  let ?P = "\<lambda>t. track_frame h t \<and> (torch_params (layer_objs t x) = Some p \<longrightarrow> next_obj h \<le> p)"
  from Suc.prems(1) obtain h1 where
    loop: "for_each (track_torch_params s d) h ?cs = Inr h1"
    and fin: "h' = (if torch_params_tracked h1 a then h1
                    else set_torch_params h1 a (collect_torch_params s (layer_objs h1 a)))"
    by (auto split: sum.splits if_splits)
  have "?P h1"
  proof (rule for_each_invariant[OF loop, where P = ?P])
    show "?P h" using Suc.prems(2) by (simp add: track_frame_refl torch_params_tracked_def)
  next
    fix t c t'
    assume t: "?P t" and s: "track_torch_params s d t c = Inr t'"
    have f: "track_frame t t'" using s by (rule track_frame_track)
    have "next_obj h \<le> p" if p: "torch_params (layer_objs t' x) = Some p"
    proof (cases "torch_params_tracked t x")
      case True
      with f have "torch_params (layer_objs t' x) = torch_params (layer_objs t x)"
        by (simp add: track_frame_def)
      with t p show ?thesis by simp
    next
      case False
      from Suc.IH[OF s False p] have "next_obj t \<le> p" .
      moreover have "next_obj h \<le> next_obj t" using t by (simp add: track_frame_def)
      ultimately show ?thesis by simp
    qed
    with t f show "?P t'" using track_frame_trans by blast
  qed
  moreover have "next_obj h \<le> next_obj h1" using \<open>?P h1\<close> by (simp add: track_frame_def)
  ultimately show ?case using fin Suc.prems(3)
    by (auto simp: set_torch_params_def split: if_splits)
qed

text \<open>Where no layer is reached twice, \<^verbatim>\<open>_post_track_variable\<close> on a layer with a snapshot
  deletes the snapshots below it and builds new ones: the layer's new snapshot is another
  object than the old one and holds the values of the present variables.\<close>

lemma post_track_variable_rebuilds:
  assumes cl: "snapshot_closed h" and old: "torch_params (layer_objs h b) = Some p"
    and alloc: "p < next_obj h" and dk: "depth_ok d h b" and di: "distinct (subtree d h b)"
  shows "\<exists>h' p'. post_track_variable s d h b v = Inr h'
           \<and> torch_params (layer_objs h' b) = Some p' \<and> p' \<noteq> p
           \<and> param_lists h' p'
               = parameter_list_items (Suc p') (collect_torch_params s (layer_objs h b))"
proof -
  have tb: "torch_params_tracked h b" using old by (simp add: torch_params_tracked_def)
  then have "\<forall>x \<in> set (subtree d h b). torch_params_tracked h x"
    using closed_subtree_tracked[OF cl] by blast
  from untrack_succeeds[OF di this dk] obtain h1 where
    u: "untrack_torch_params d h b = Inr h1"
    and gone: "\<forall>x \<in> set (subtree d h b). \<not> torch_params_tracked h1 x"
    by blast
  have f1: "untrack_frame h h1" using u by (rule untrack_frame_untrack)
  have "b \<in> set (subtree d h b)" using dk by (cases d) auto
  with gone have nb: "\<not> torch_params_tracked h1 b" by blast
  then have cur: "snapshot_current s h1 b"
    by (simp add: snapshot_current_def torch_params_tracked_def)
  have "depth_ok d h1 b"
    using dk depth_ok_same_layers[OF untrack_frame_same_layers[OF f1]] by simp
  from track_succeeds[OF this] obtain h' where t: "track_torch_params s d h1 b = Inr h'"
    by blast
  from track_current_snapshot[OF t cur] obtain p' where
    p': "torch_params (layer_objs h' b) = Some p'"
    and l: "param_lists h' p'
              = parameter_list_items (Suc p') (collect_torch_params s (layer_objs h' b))"
    by blast
  have "next_obj h1 \<le> p'" using track_fresh[OF t nb p'] .
  moreover have "next_obj h1 = next_obj h" using f1 by (simp add: untrack_frame_def)
  ultimately have ne: "p' \<noteq> p" using alloc by simp
  have "same_layer_data (layer_objs h b) (layer_objs h' b)"
    using f1 track_frame_track[OF t]
    by (simp add: untrack_frame_def track_frame_def same_layer_data_def)
  then have "collect_torch_params s (layer_objs h' b) = collect_torch_params s (layer_objs h b)"
    by (rule collect_same_data)
  with l p' ne u t tb show ?thesis by (simp add: post_track_variable_def)
qed

subsection \<open>Two runs in step\<close>

lemma rel_sum_InlD: "rel_sum (=) R x y \<Longrightarrow> x = Inl e \<Longrightarrow> y = Inl e"
  by (cases y) auto

lemma rel_sum_InrD: "rel_sum (=) R x y \<Longrightarrow> x = Inr u \<Longrightarrow> \<exists>w. y = Inr w \<and> R u w"
  by (cases y) auto

lemma for_each_related:
  assumes "list_all2 A xs ys" and "R s t"
    and "\<And>x y u w. A x y \<Longrightarrow> R u w \<Longrightarrow> rel_sum (=) R (f u x) (g w y)"
  shows "rel_sum (=) R (for_each f s xs) (for_each g t ys)"
  using assms(1,2)
proof (induction xs ys arbitrary: s t rule: list_all2_induct)
  case Nil
  then show ?case by simp
next
  case (Cons x xs y ys)
  have step: "rel_sum (=) R (f s x) (g t y)" using Cons.hyps(1) Cons.prems by (rule assms(3))
  show ?case
  proof (cases "f s x")
    case (Inl e)
    with rel_sum_InlD[OF step Inl] show ?thesis by simp
  next
    case (Inr s1)
    from rel_sum_InrD[OF step Inr] obtain t1 where t1: "g t y = Inr t1" "R s1 t1" by blast
    from Cons.IH[OF t1(2)] Inr t1(1) show ?thesis by simp
  qed
qed

lemma for_each_renamed:
  assumes "R s t"
    and "\<And>x u w. R u w \<Longrightarrow> rel_sum (=) R (f u x) (g w (\<sigma> x))"
  shows "rel_sum (=) R (for_each f s xs) (for_each g t (map \<sigma> xs))"
proof (rule for_each_related[where A = "\<lambda>x y. y = \<sigma> x"])
  show "list_all2 (\<lambda>x y. y = \<sigma> x) xs (map \<sigma> xs)" by (simp add: list_all2_map2 list_all2_same)
  show "R s t" by fact
  show "\<And>x y u w. y = \<sigma> x \<Longrightarrow> R u w \<Longrightarrow> rel_sum (=) R (f u x) (g w y)"
    using assms(2) by simp
qed

lemma in_stepD:
  assumes "in_step \<sigma> \<rho> h1 h2"
  shows "layer_objs h2 (\<sigma> a) = rename_layer \<sigma> \<rho> (layer_objs h1 a)"
    and "param_lists h2 (\<rho> p) = map \<rho> (param_lists h1 p)"
    and "\<rho> (next_obj h1 + i) = next_obj h2 + i"
    and "\<rho> (next_obj h1) = next_obj h2"
    and "layers (layer_objs h2 (\<sigma> a)) = map \<sigma> (layers (layer_objs h1 a))"
    and "torch_params_tracked h2 (\<sigma> a) = torch_params_tracked h1 a"
    and "built (layer_objs h2 (\<sigma> a)) = built (layer_objs h1 a)"
proof -
  show 1: "layer_objs h2 (\<sigma> a) = rename_layer \<sigma> \<rho> (layer_objs h1 a)"
    and "param_lists h2 (\<rho> p) = map \<rho> (param_lists h1 p)"
    and 3: "\<rho> (next_obj h1 + i) = next_obj h2 + i" for i
    using assms by (simp_all add: in_step_def)
  from 3[of 0] show "\<rho> (next_obj h1) = next_obj h2" by simp
  show "layers (layer_objs h2 (\<sigma> a)) = map \<sigma> (layers (layer_objs h1 a))"
    and "torch_params_tracked h2 (\<sigma> a) = torch_params_tracked h1 a"
    and "built (layer_objs h2 (\<sigma> a)) = built (layer_objs h1 a)"
    by (simp_all add: 1 rename_layer_def torch_params_tracked_def)
qed

lemma variable_value_renamed:
  "variable_value s (rename \<rho> v) = rename_tensor \<rho> (variable_value s v)"
  by (simp add: variable_value_def rename_def)

lemma collect_renamed:
  "collect_torch_params s (rename_layer \<sigma> \<rho> l)
     = map (rename_tensor \<rho>) (collect_torch_params s l)"
  by (simp add: collect_torch_params_def rename_layer_def variable_value_renamed comp_def)

lemma items_renamed:
  "(\<And>i. \<rho> (n1 + i) = n2 + i) \<Longrightarrow>
     parameter_list_items n2 (map (rename_tensor \<rho>) xs) = map \<rho> (parameter_list_items n1 xs)"
proof (induction n1 xs arbitrary: n2 rule: parameter_list_items.induct)
  case (1 n)
  then show ?case by simp
next
  case (2 n p xs)
  then show ?case by simp
next
  case (3 n xs)
  have 0: "\<rho> n = n2" using 3(2)[of 0] by simp
  have "parameter_list_items (Suc n2) (map (rename_tensor \<rho>) xs)
          = map \<rho> (parameter_list_items (Suc n) xs)"
  proof (rule 3(1))
    fix i show "\<rho> (Suc n + i) = Suc n2 + i" using 3(2)[of "Suc i"] by simp
  qed
  with 0 show ?case by simp
qed

lemma new_parameters_renamed:
  "new_parameters (map (rename_tensor \<rho>) xs) = new_parameters xs"
proof (induction xs)
  case Nil
  then show ?case by (simp add: new_parameters_def)
next
  case (Cons x xs)
  then show ?case by (cases x) (simp_all add: new_parameters_def)
qed

lemma rename_entry_TorchParams [simp]:
  "(rename_entry \<sigma> e = TorchParams) = (e = TorchParams)"
  "(TorchParams = rename_entry \<sigma> e) = (e = TorchParams)"
  by (cases e; simp)+

lemma TorchParams_renamed:
  "(TorchParams \<in> set (map (rename_entry \<sigma>) ms)) = (TorchParams \<in> set ms)"
  by (induction ms) auto

lemma register_renamed:
  "register_torch_params (map (rename_entry \<sigma>) ms)
     = map (rename_entry \<sigma>) (register_torch_params ms)"
  unfolding register_torch_params_def TorchParams_renamed by simp

lemma removeAll_renamed:
  "removeAll TorchParams (map (rename_entry \<sigma>) ms)
     = map (rename_entry \<sigma>) (removeAll TorchParams ms)"
  by (induction ms) auto

lemma rename_layer_set:
  "(rename_layer \<sigma> \<rho> l)\<lparr>torch_params := Some (\<rho> p),
       modules := register_torch_params (modules (rename_layer \<sigma> \<rho> l))\<rparr>
     = rename_layer \<sigma> \<rho> (l\<lparr>torch_params := Some p,
         modules := register_torch_params (modules l)\<rparr>)"
  by (simp add: rename_layer_def register_renamed)

lemma rename_layer_del:
  "(rename_layer \<sigma> \<rho> l)\<lparr>torch_params := None,
       modules := removeAll TorchParams (modules (rename_layer \<sigma> \<rho> l))\<rparr>
     = rename_layer \<sigma> \<rho> (l\<lparr>torch_params := None,
         modules := removeAll TorchParams (modules l)\<rparr>)"
  by (simp add: rename_layer_def removeAll_renamed)

lemma in_step_set:
  assumes r: "in_step \<sigma> \<rho> h1 h2" and s: "inj \<sigma>" and p: "inj \<rho>"
  shows "in_step \<sigma> \<rho> (set_torch_params h1 a (collect_torch_params s (layer_objs h1 a)))
           (set_torch_params h2 (\<sigma> a) (collect_torch_params s (layer_objs h2 (\<sigma> a))))"
proof -
  let ?xs = "collect_torch_params s (layer_objs h1 a)"
  let ?ys = "collect_torch_params s (layer_objs h2 (\<sigma> a))"
  let ?g1 = "set_torch_params h1 a ?xs"
  let ?g2 = "set_torch_params h2 (\<sigma> a) ?ys"
  note d = in_stepD[OF r]
  have ys: "?ys = map (rename_tensor \<rho>) ?xs" by (simp add: d(1) collect_renamed)
  have items: "parameter_list_items (Suc (next_obj h2)) ?ys
                 = map \<rho> (parameter_list_items (Suc (next_obj h1)) ?xs)"
    unfolding ys
  proof (rule items_renamed)
    fix i show "\<rho> (Suc (next_obj h1) + i) = Suc (next_obj h2) + i"
      using d(3)[of "Suc i"] by simp
  qed
  have new: "new_parameters ?ys = new_parameters ?xs" by (simp add: ys new_parameters_renamed)
  have lay: "layer_objs ?g2 (\<sigma> b) = rename_layer \<sigma> \<rho> (layer_objs ?g1 b)" for b
  proof (cases "b = a")
    case True
    have "layer_objs ?g2 (\<sigma> a)
            = (rename_layer \<sigma> \<rho> (layer_objs h1 a))\<lparr>torch_params := Some (\<rho> (next_obj h1)),
                modules := register_torch_params
                   (modules (rename_layer \<sigma> \<rho> (layer_objs h1 a)))\<rparr>"
      by (simp add: set_torch_params_def d(1) d(4))
    also have "\<dots> = rename_layer \<sigma> \<rho> (layer_objs ?g1 a)"
      unfolding rename_layer_set by (simp add: set_torch_params_def)
    finally show ?thesis using True by simp
  next
    case False
    then have "\<sigma> b \<noteq> \<sigma> a" using s by (simp add: inj_eq)
    with False show ?thesis by (simp add: set_torch_params_def d(1))
  qed
  have pl: "param_lists ?g2 (\<rho> q) = map \<rho> (param_lists ?g1 q)" for q
  proof (cases "q = next_obj h1")
    case True
    with items d(4) show ?thesis by (simp add: set_torch_params_def)
  next
    case False
    then have "\<rho> q \<noteq> \<rho> (next_obj h1)" using p by (simp add: inj_eq)
    with False d(4) d(2) show ?thesis by (simp add: set_torch_params_def)
  qed
  have al: "\<rho> (next_obj ?g1 + i) = next_obj ?g2 + i" for i
    using d(3)[of "Suc (new_parameters ?xs + i)"] new by (simp add: set_torch_params_def add.assoc)
  from lay pl al show ?thesis by (simp add: in_step_def)
qed

lemma in_step_del:
  assumes r: "in_step \<sigma> \<rho> h1 h2" and s: "inj \<sigma>"
  shows "rel_sum (=) (in_step \<sigma> \<rho>) (del_torch_params h1 a) (del_torch_params h2 (\<sigma> a))"
proof (cases "torch_params_tracked h1 a")
  case False
  with in_stepD(6)[OF r, of a] show ?thesis by (simp add: del_torch_params_def)
next
  case True
  note d = in_stepD[OF r]
  let ?g1 = "h1\<lparr>layer_objs := (layer_objs h1)(a := (layer_objs h1 a)
              \<lparr>torch_params := None, modules := removeAll TorchParams (modules (layer_objs h1 a))\<rparr>)\<rparr>"
  let ?g2 = "h2\<lparr>layer_objs := (layer_objs h2)(\<sigma> a := (layer_objs h2 (\<sigma> a))
              \<lparr>torch_params := None,
               modules := removeAll TorchParams (modules (layer_objs h2 (\<sigma> a)))\<rparr>)\<rparr>"
  have lay: "layer_objs ?g2 (\<sigma> b) = rename_layer \<sigma> \<rho> (layer_objs ?g1 b)" for b
  proof (cases "b = a")
    case True
    then show ?thesis by (simp add: d(1) rename_layer_del)
  next
    case False
    then have "\<sigma> b \<noteq> \<sigma> a" using s by (simp add: inj_eq)
    with False show ?thesis by (simp add: d(1))
  qed
  have "in_step \<sigma> \<rho> ?g1 ?g2" using lay d(2) d(3) by (simp add: in_step_def)
  with True d(6)[of a] show ?thesis by (simp add: del_torch_params_def)
qed

lemma track_related:
  assumes s: "inj \<sigma>" and p: "inj \<rho>"
  shows "in_step \<sigma> \<rho> h1 h2 \<Longrightarrow>
     rel_sum (=) (in_step \<sigma> \<rho>) (track_torch_params s d h1 a) (track_torch_params s d h2 (\<sigma> a))"
proof (induction d arbitrary: h1 h2 a)
  case 0
  then show ?case by simp
next
  case (Suc d)
  have cs: "layers (layer_objs h2 (\<sigma> a)) = map \<sigma> (layers (layer_objs h1 a))"
    by (rule in_stepD(5)[OF Suc.prems])
  let ?cs = "layers (layer_objs h1 a)"
  have loop: "rel_sum (=) (in_step \<sigma> \<rho>) (for_each (track_torch_params s d) h1 ?cs)
                (for_each (track_torch_params s d) h2 (map \<sigma> ?cs))"
    by (rule for_each_renamed[where R = "in_step \<sigma> \<rho>", OF Suc.prems]) (rule Suc.IH)
  show ?case
  proof (cases "for_each (track_torch_params s d) h1 ?cs")
    case (Inl err)
    with rel_sum_InlD[OF loop Inl] cs show ?thesis by simp
  next
    case (Inr k1)
    from rel_sum_InrD[OF loop Inr] obtain k2
      where k2: "for_each (track_torch_params s d) h2 (map \<sigma> ?cs) = Inr k2"
        and k: "in_step \<sigma> \<rho> k1 k2"
      by blast
    have tr: "torch_params_tracked k2 (\<sigma> a) = torch_params_tracked k1 a"
      by (rule in_stepD(6)[OF k])
    show ?thesis
    proof (cases "torch_params_tracked k1 a")
      case True
      with tr Inr k2 k cs show ?thesis by simp
    next
      case False
      with tr Inr k2 cs in_step_set[OF k s p, where s = s and a = a] show ?thesis by simp
    qed
  qed
qed

lemma untrack_related:
  assumes s: "inj \<sigma>"
  shows "in_step \<sigma> \<rho> h1 h2 \<Longrightarrow>
     rel_sum (=) (in_step \<sigma> \<rho>) (untrack_torch_params d h1 a) (untrack_torch_params d h2 (\<sigma> a))"
proof (induction d arbitrary: h1 h2 a)
  case 0
  then show ?case by simp
next
  case (Suc d)
  have cs: "layers (layer_objs h2 (\<sigma> a)) = map \<sigma> (layers (layer_objs h1 a))"
    by (rule in_stepD(5)[OF Suc.prems])
  let ?cs = "layers (layer_objs h1 a)"
  have loop: "rel_sum (=) (in_step \<sigma> \<rho>) (for_each (untrack_torch_params d) h1 ?cs)
                (for_each (untrack_torch_params d) h2 (map \<sigma> ?cs))"
    by (rule for_each_renamed[where R = "in_step \<sigma> \<rho>", OF Suc.prems]) (rule Suc.IH)
  show ?case
  proof (cases "for_each (untrack_torch_params d) h1 ?cs")
    case (Inl err)
    with rel_sum_InlD[OF loop Inl] cs show ?thesis by simp
  next
    case (Inr k1)
    from rel_sum_InrD[OF loop Inr] obtain k2
      where k2: "for_each (untrack_torch_params d) h2 (map \<sigma> ?cs) = Inr k2"
        and k: "in_step \<sigma> \<rho> k1 k2"
      by blast
    with Inr cs in_step_del[OF k s, of a] show ?thesis by simp
  qed
qed

lemma retrack_related:
  assumes r: "in_step \<sigma> \<rho> h1 h2" and s: "inj \<sigma>" and p: "inj \<rho>"
  shows "rel_sum (=) (in_step \<sigma> \<rho>)
           (post_track_variable s d h1 a v) (post_track_variable s d h2 (\<sigma> a) v')"
proof -
  have tr: "torch_params_tracked h2 (\<sigma> a) = torch_params_tracked h1 a"
    by (rule in_stepD(6)[OF r])
  show ?thesis
  proof (cases "torch_params_tracked h1 a")
    case False
    with tr r show ?thesis by (simp add: post_track_variable_def)
  next
    case True
    note u = untrack_related[OF s r, of d a]
    show ?thesis
    proof (cases "untrack_torch_params d h1 a")
      case (Inl err)
      with rel_sum_InlD[OF u Inl] True tr show ?thesis by (simp add: post_track_variable_def)
    next
      case (Inr k1)
      from rel_sum_InrD[OF u Inr] obtain k2
        where k2: "untrack_torch_params d h2 (\<sigma> a) = Inr k2" and k: "in_step \<sigma> \<rho> k1 k2"
        by blast
      with Inr True tr track_related[OF s p k, where s = s and d = d and a = a] show ?thesis
        by (simp add: post_track_variable_def)
    qed
  qed
qed

lemma post_untrack_related:
  assumes "in_step \<sigma> \<rho> h1 h2" and "inj \<sigma>" and "inj \<rho>"
  shows "rel_sum (=) (in_step \<sigma> \<rho>)
           (post_untrack_variable s d h1 a v) (post_untrack_variable s d h2 (\<sigma> a) v')"
  using retrack_related[OF assms, where s = s and d = d and a = a and v = v and v' = v']
  by (simp add: post_untrack_variable_def post_track_variable_def)


lemma rename_module_inj:
  assumes "inj \<sigma>" and "inj \<rho>"
  shows "(rename_module \<sigma> \<rho> m = rename_module \<sigma> \<rho> n) = (m = n)"
  using assms by (cases m; cases n) (simp_all add: inj_eq)

lemma memo_renamed:
  assumes "inj \<sigma>" and "inj \<rho>"
  shows "(rename_module \<sigma> \<rho> m \<in> set (map (rename_module \<sigma> \<rho>) memo)) = (m \<in> set memo)"
  by (induction memo) (auto simp: rename_module_inj[OF assms])

lemma submodules_renamed:
  assumes r: "in_step \<sigma> \<rho> h1 h2"
  shows "submodules h2 (rename_module \<sigma> \<rho> m)
           = map (apsnd (rename_module \<sigma> \<rho>)) (submodules h1 m)"
proof (cases m)
  case (ParameterListModule p)
  then show ?thesis by (simp add: submodules_def)
next
  case (LayerModule a)
  let ?f = "\<lambda>h b e. case e of
                SubLayer name c \<Rightarrow> [(name, LayerModule c)]
              | TorchParams \<Rightarrow>
                  (case torch_params (layer_objs h b) of
                     None \<Rightarrow> []
                   | Some p \<Rightarrow> [(''torch_params'', ParameterListModule p)])"
  have tp: "torch_params (layer_objs h2 (\<sigma> a)) = map_option \<rho> (torch_params (layer_objs h1 a))"
    and ms: "modules (layer_objs h2 (\<sigma> a)) = map (rename_entry \<sigma>) (modules (layer_objs h1 a))"
    by (simp_all add: in_stepD(1)[OF r] rename_layer_def)
  have one: "?f h2 (\<sigma> a) (rename_entry \<sigma> e) = map (apsnd (rename_module \<sigma> \<rho>)) (?f h1 a e)" for e
    by (cases e) (simp_all add: tp split: option.splits)
  have "concat (map (?f h2 (\<sigma> a)) (map (rename_entry \<sigma>) es))
          = map (apsnd (rename_module \<sigma> \<rho>)) (concat (map (?f h1 a) es))" for es
    by (induction es) (simp_all add: one)
  with LayerModule ms show ?thesis by (simp add: submodules_def)
qed

lemma named_modules_renamed:
  assumes r: "in_step \<sigma> \<rho> h1 h2" and s: "inj \<sigma>" and p: "inj \<rho>"
  shows "rel_sum (=)
           (\<lambda>u w. w = (map (apsnd (rename_module \<sigma> \<rho>)) (fst u),
                        map (rename_module \<sigma> \<rho>) (snd u)))
           (named_modules k h1 rd pre m memo)
           (named_modules k h2 rd pre (rename_module \<sigma> \<rho> m)
              (map (rename_module \<sigma> \<rho>) memo))"
proof (induction k arbitrary: pre m memo)
  case 0
  then show ?case by simp
next
  case (Suc k)
  let ?rm = "rename_module \<sigma> \<rho>"
  let ?R = "\<lambda>(u :: (string \<times> module) list \<times> module list) w.
              w = (map (apsnd ?rm) (fst u), map ?rm (snd u))"
  let ?f = "\<lambda>h (out, memo1) (name, sub).
             case named_modules k h rd (join_prefix pre name) sub memo1 of
               Inl e \<Rightarrow> Inl e
             | Inr (ys, memo2) \<Rightarrow> Inr (out @ ys, memo2)"
  have mem: "(?rm m \<in> set (map ?rm memo)) = (m \<in> set memo)" by (rule memo_renamed[OF s p])
  show ?case
  proof (cases "m \<in> set memo")
    case True
    with mem show ?thesis by simp
  next
    case False
    have init: "?R ([(pre, m)], if rd then m # memo else memo)
                   ([(pre, ?rm m)], if rd then ?rm m # map ?rm memo else map ?rm memo)"
      by simp
    have loop: "rel_sum (=) ?R
        (for_each (?f h1) ([(pre, m)], if rd then m # memo else memo) (submodules h1 m))
        (for_each (?f h2) ([(pre, ?rm m)], if rd then ?rm m # map ?rm memo else map ?rm memo)
           (map (apsnd ?rm) (submodules h1 m)))"
    proof (rule for_each_renamed[where R = ?R, OF init])
      fix x :: "string \<times> module" and u w :: "(string \<times> module) list \<times> module list"
      assume uw: "?R u w"
      obtain name sub where x: "x = (name, sub)" by (cases x)
      obtain out mm where u: "u = (out, mm)" by (cases u)
      from uw u have w: "w = (map (apsnd ?rm) out, map ?rm mm)" by simp
      note ih = Suc.IH[of "join_prefix pre name" sub mm]
      show "rel_sum (=) ?R (?f h1 u x) (?f h2 w (apsnd ?rm x))"
      proof (cases "named_modules k h1 rd (join_prefix pre name) sub mm")
        case (Inl e)
        with rel_sum_InlD[OF ih Inl] x u w show ?thesis by simp
      next
        case (Inr res)
        from rel_sum_InrD[OF ih Inr]
        have "named_modules k h2 rd (join_prefix pre name) (?rm sub) (map ?rm mm)
                = Inr (map (apsnd ?rm) (fst res), map ?rm (snd res))" by simp
        with Inr x u w show ?thesis by (cases res) simp
      qed
    qed
    from False mem loop show ?thesis by (simp add: submodules_renamed[OF r])
  qed
qed

lemma module_parameters_renamed:
  assumes r: "in_step \<sigma> \<rho> h1 h2"
  shows "module_parameters h2 (rename_module \<sigma> \<rho> m) = map (apsnd \<rho>) (module_parameters h1 m)"
proof (cases m)
  case (LayerModule a)
  then show ?thesis by (simp add: module_parameters_def)
next
  case (ParameterListModule p)
  then show ?thesis
    by (simp add: module_parameters_def in_stepD(2)[OF r] zip_map2 apsnd_def map_prod_def)
qed

lemma members_of_renamed:
  assumes r: "in_step \<sigma> \<rho> h1 h2"
  shows "members_of h2 (map (apsnd (rename_module \<sigma> \<rho>)) ms) = map (apsnd \<rho>) (members_of h1 ms)"
proof (induction ms)
  case Nil
  then show ?case by (simp add: members_of_def)
next
  case (Cons x ms)
  obtain pre m where x: "x = (pre, m)" by (cases x)
  have "map (\<lambda>(k, v). (join_prefix pre k, v)) (module_parameters h2 (rename_module \<sigma> \<rho> m))
          = map (apsnd \<rho>) (map (\<lambda>(k, v). (join_prefix pre k, v)) (module_parameters h1 m))"
    unfolding module_parameters_renamed[OF r] by (simp add: apsnd_def map_prod_def split_def)
  with Cons.IH x show ?case by (simp add: members_of_def)
qed

lemma named_members_renamed:
  assumes "inj \<rho>"
  shows "named_members rd (map \<rho> memo) (map (apsnd \<rho>) xs)
           = map (apsnd \<rho>) (named_members rd memo xs)"
proof (induction xs arbitrary: memo)
  case Nil
  then show ?case by simp
next
  case (Cons x xs)
  obtain name v where x: "x = (name, v)" by (cases x)
  have mem: "(\<rho> v \<in> \<rho> ` set memo) = (v \<in> set memo)"
    using assms by (rule inj_image_mem_iff)
  show ?case
  proof (cases "v \<in> set memo")
    case True
    with mem x Cons.IH[of memo] show ?thesis by simp
  next
    case False
    with mem x Cons.IH[of memo] Cons.IH[of "v # memo"] show ?thesis by (cases rd) simp_all
  qed
qed

lemma same_enumeration_iff: "same_enumeration \<rho> xs ys = (ys = map (apsnd \<rho>) xs)"
proof
  assume "ys = map (apsnd \<rho>) xs"
  then show "same_enumeration \<rho> xs ys" by (simp add: same_enumeration_def comp_def)
next
  assume "same_enumeration \<rho> xs ys"
  then have f: "map fst ys = map fst xs" and s: "map snd ys = map \<rho> (map snd xs)"
    by (simp_all add: same_enumeration_def)
  have "ys = zip (map fst ys) (map snd ys)" by (simp add: zip_map_fst_snd)
  also have "\<dots> = zip (map fst xs) (map \<rho> (map snd xs))" using f s by simp
  also have "\<dots> = map (apsnd \<rho>) xs"
    by (induction xs) (auto simp: apsnd_def map_prod_def split_def)
  finally show "ys = map (apsnd \<rho>) xs" .
qed

lemma Module_named_parameters_renamed:
  assumes r: "in_step \<sigma> \<rho> h1 h2" and s: "inj \<sigma>" and p: "inj \<rho>"
  shows "rel_sum (=) (same_enumeration \<rho>)
           (Module_named_parameters k h1 a pre recurse rd)
           (Module_named_parameters k h2 (\<sigma> a) pre recurse rd)"
proof -
  let ?rm = "rename_module \<sigma> \<rho>"
  have fin: "same_enumeration \<rho> (named_members rd [] (members_of h1 ms))
               (named_members rd [] (members_of h2 (map (apsnd ?rm) ms)))" for ms
    using named_members_renamed[OF p, of rd "[]"]
    by (simp add: same_enumeration_iff members_of_renamed[OF r])
  show ?thesis
  proof (cases recurse)
    case False
    with fin[of "[(pre, LayerModule a)]"] show ?thesis by (simp add: Module_named_parameters_def)
  next
    case True
    note nm = named_modules_renamed[OF r s p, of k rd pre "LayerModule a" "[]"]
    show ?thesis
    proof (cases "named_modules k h1 rd pre (LayerModule a) []")
      case (Inl e)
      with rel_sum_InlD[OF nm Inl] True show ?thesis by (simp add: Module_named_parameters_def)
    next
      case (Inr res)
      from rel_sum_InrD[OF nm Inr]
      have "named_modules k h2 rd pre (LayerModule (\<sigma> a)) []
              = Inr (map (apsnd ?rm) (fst res), map ?rm (snd res))" by simp
      with Inr True fin[of "fst res"] show ?thesis
        by (cases res) (simp add: Module_named_parameters_def)
    qed
  qed
qed

lemma named_parameters_related:
  assumes r: "in_step \<sigma> \<rho> h1 h2" and s: "inj \<sigma>" and p: "inj \<rho>"
  shows "rel_sum (=) (rel_prod (in_step \<sigma> \<rho>) (rel_sum (=) (same_enumeration \<rho>)))
           (named_parameters (Module_named_parameters k) s d h1 a pre recurse rd)
           (named_parameters (Module_named_parameters k) s d h2 (\<sigma> a) pre recurse rd)"
proof -
  have tr: "torch_params_tracked h2 (\<sigma> a) = torch_params_tracked h1 a"
    by (rule in_stepD(6)[OF r])
  have bl: "built (layer_objs h2 (\<sigma> a)) = built (layer_objs h1 a)" by (rule in_stepD(7)[OF r])
  note enum = Module_named_parameters_renamed[OF _ s p, where k = k and a = a and pre = pre
      and recurse = recurse and rd = rd]
  show ?thesis
  proof (cases "torch_params_tracked h1 a")
    case True
    with tr r enum[OF r] show ?thesis by (simp add: named_parameters_def)
  next
    case False
    show ?thesis
    proof (cases "built (layer_objs h1 a)")
      case nb: False
      with False tr bl show ?thesis by (simp add: named_parameters_def)
    next
      case b: True
      note t = track_related[OF s p r, where s = s and d = d and a = a]
      show ?thesis
      proof (cases "track_torch_params s d h1 a")
        case (Inl e)
        with rel_sum_InlD[OF t Inl] False tr bl b show ?thesis by (simp add: named_parameters_def)
      next
        case (Inr g1)
        from rel_sum_InrD[OF t Inr] obtain g2
          where g2: "track_torch_params s d h2 (\<sigma> a) = Inr g2" and g: "in_step \<sigma> \<rho> g1 g2"
          by blast
        with Inr False tr bl b enum[OF g] show ?thesis by (simp add: named_parameters_def)
      qed
    qed
  qed
qed

lemma post_build_related:
  assumes "in_step \<sigma> \<rho> h1 h2" and "inj \<sigma>" and "inj \<rho>"
  shows "rel_sum (=) (in_step \<sigma> \<rho>) (post_build s d h1 a) (post_build s d h2 (\<sigma> a))"
  using assms track_related[OF assms(2,3,1), where s = s and d = d and a = a]
  by (cases s) (simp_all add: post_build_def)

lemma example_renaming_inj: "inj example_renaming"
  by (auto simp: inj_def example_renaming_def split: if_splits)

lemma example_layer_renaming_inj: "inj example_layer_renaming"
  by (auto simp: inj_def example_layer_renaming_def split: if_splits)

lemma example_in_step:
  "in_step example_layer_renaming example_renaming example_heap example_second_run"
  by (auto simp: in_step_def rename_layer_def rename_def example_renaming_def
      example_layer_renaming_def example_heap_def example_second_run_def empty_layer_def
      mk_variable_def)

lemma example_enumeration:
  "named_parameters (Module_named_parameters 4) False 2 example_heap 0 [] True True
     = Inr (example_exposed,
            Inr [(''first.torch_params.0'', 20), (''second.torch_params.0'', 21),
                 (''torch_params.0'', 10), (''torch_params.1'', 11), (''torch_params.2'', 12),
                 (''torch_params.3'', 13)])"
proof -
  have "Module_named_parameters 4 example_exposed 0 [] True True
     = Inr [(''first.torch_params.0'', 20), (''second.torch_params.0'', 21),
                 (''torch_params.0'', 10), (''torch_params.1'', 11), (''torch_params.2'', 12),
                 (''torch_params.3'', 13)]"
    by code_simp
  moreover have "\<not> torch_params_tracked example_heap 0" "built (layer_objs example_heap 0)"
    by (simp_all add: example_defs)
  ultimately show ?thesis by (simp add: named_parameters_def example_track)
qed

section \<open>The claims\<close>

text \<open>
  C1, as the code has it. \<^verbatim>\<open>_track_torch_params\<close> builds a snapshot only for a layer
  that has none. For such a layer the new snapshot holds one handle for each trainable
  variable, then each non-trainable variable, then each seed generator state, in the
  order of the layer's own lists; outside a stateless scope these handles are exactly
  the variables' values in that order. A layer that has a snapshot already keeps it:
  the same object with the same contents, whatever the layer's variables are by now.
  (The call returns when the sublayers fit the recursion bound.)
\<close>

theorem track_torch_params_order:
  assumes "depth_ok d h self"
  shows "\<exists>h'. track_torch_params s d h self = Inr h'
     \<and> trainable_variables (layer_objs h' self) = trainable_variables (layer_objs h self)
     \<and> non_trainable_variables (layer_objs h' self) = non_trainable_variables (layer_objs h self)
     \<and> seed_generators (layer_objs h' self) = seed_generators (layer_objs h self)
     \<and> (case torch_params (layer_objs h self) of
          None \<Rightarrow>
            (\<exists>p. torch_params (layer_objs h' self) = Some p
               \<and> length (param_lists h' p)
                   = length (trainable_variables (layer_objs h self))
                     + length (non_trainable_variables (layer_objs h self))
                     + length (seed_generators (layer_objs h self))
               \<and> (\<not> s \<longrightarrow> param_lists h' p =
                     map var_value (trainable_variables (layer_objs h self))
                     @ map var_value (non_trainable_variables (layer_objs h self))
                     @ map (\<lambda>sg. var_value (state sg)) (seed_generators (layer_objs h self))))
        | Some p \<Rightarrow>
            torch_params (layer_objs h' self) = Some p
            \<and> (p < next_obj h \<longrightarrow> param_lists h' p = param_lists h p))"
proof -
  from track_succeeds[OF assms] obtain h' where t: "track_torch_params s d h self = Inr h'"
    by blast
  have f: "track_frame h h'" using t by (rule track_frame_track)
  then have same: "same_layer_data (layer_objs h self) (layer_objs h' self)"
    by (simp add: track_frame_def)
  have snap: "case torch_params (layer_objs h self) of
          None \<Rightarrow>
            (\<exists>p. torch_params (layer_objs h' self) = Some p
               \<and> length (param_lists h' p)
                   = length (trainable_variables (layer_objs h self))
                     + length (non_trainable_variables (layer_objs h self))
                     + length (seed_generators (layer_objs h self))
               \<and> (\<not> s \<longrightarrow> param_lists h' p =
                     map var_value (trainable_variables (layer_objs h self))
                     @ map var_value (non_trainable_variables (layer_objs h self))
                     @ map (\<lambda>sg. var_value (state sg)) (seed_generators (layer_objs h self))))
        | Some p \<Rightarrow>
            torch_params (layer_objs h' self) = Some p
            \<and> (p < next_obj h \<longrightarrow> param_lists h' p = param_lists h p)"
  proof (cases "torch_params (layer_objs h self)")
    case None
    then have "snapshot_current s h self" by (simp add: snapshot_current_def)
    from track_current_snapshot[OF t this] obtain p where
      p: "torch_params (layer_objs h' self) = Some p"
      and l: "param_lists h' p
                = parameter_list_items (Suc p) (collect_torch_params s (layer_objs h' self))"
      by blast
    have c: "collect_torch_params s (layer_objs h' self) = collect_torch_params s (layer_objs h self)"
      using same by (rule collect_same_data)
    have len: "length (param_lists h' p)
                   = length (trainable_variables (layer_objs h self))
                     + length (non_trainable_variables (layer_objs h self))
                     + length (seed_generators (layer_objs h self))"
      using l c by (simp add: length_collect)
    have "own_handles (layer_objs h' self) = own_handles (layer_objs h self)"
      using same by (simp add: own_handles_def same_layer_data_def)
    then have "param_lists h' p = own_handles (layer_objs h self)" if "\<not> s"
      using that l by (simp add: collect_eager)
    with None p len show ?thesis by (simp add: own_handles_def)
  next
    case (Some p)
    then have "torch_params_tracked h self" by (simp add: torch_params_tracked_def)
    with f Some show ?thesis by (simp add: track_frame_def)
  qed
  from t same snap show ?thesis by (auto simp: same_layer_data_def)
qed

theorem track_torch_params_order_witness:
  "depth_ok 2 example_heap 0 \<and> torch_params (layer_objs example_heap 0) = None
   \<and> (\<exists>h' p. track_torch_params False 2 example_heap 0 = Inr h'
          \<and> torch_params (layer_objs h' 0) = Some p
          \<and> param_lists h' p = [10, 11, 12, 13])
   \<and> depth_ok 2 example_stale 0 \<and> torch_params (layer_objs example_stale 0) = Some 102
   \<and> 102 < next_obj example_stale
   \<and> (\<exists>h'. track_torch_params False 2 example_stale 0 = Inr h'
          \<and> torch_params (layer_objs h' 0) = Some 102
          \<and> param_lists h' 102 = [10, 11, 12, 13])"
proof -
  have d: "depth_ok 2 example_heap 0" by (rule example_depth_ok)
  have n: "torch_params (layer_objs example_heap 0) = None" by (simp add: example_heap_def)
  have v: "map var_value (trainable_variables (layer_objs example_heap 0))
             @ map var_value (non_trainable_variables (layer_objs example_heap 0))
             @ map (\<lambda>sg. var_value (state sg)) (seed_generators (layer_objs example_heap 0))
           = [10, 11, 12, 13]"
    by (simp add: example_heap_def mk_variable_def)
  have 1: "\<exists>h' p. track_torch_params False 2 example_heap 0 = Inr h'
          \<and> torch_params (layer_objs h' 0) = Some p
          \<and> param_lists h' p = [10, 11, 12, 13]"
    using track_torch_params_order[OF d, of False] n v by auto
  have d2: "depth_ok 2 example_stale 0"
    by (simp add: example_stale_def example_defs numeral_2_eq_2)
  have s2: "torch_params (layer_objs example_stale 0) = Some 102"
    by (simp add: example_stale_def example_defs)
  have a2: "102 < next_obj example_stale"
    by (simp add: example_stale_def example_defs)
  have l2: "param_lists example_stale 102 = [10, 11, 12, 13]"
    by (simp add: example_stale_def example_defs)
  have 2: "\<exists>h'. track_torch_params False 2 example_stale 0 = Inr h'
          \<and> torch_params (layer_objs h' 0) = Some 102
          \<and> param_lists h' 102 = [10, 11, 12, 13]"
    using track_torch_params_order[OF d2, of False] s2 a2 l2 by auto
  from d n 1 d2 s2 a2 2 show ?thesis by blast
qed

text \<open>The claim as stated fails on a layer whose snapshot is older than its variables:
  the layer at address 0 has the snapshot of \<open>example_exposed\<close> and a second seed
  generator since. \<^verbatim>\<open>_track_torch_params\<close> returns the store as it is, and the snapshot
  lacks the new state's value.\<close>

theorem track_torch_params_order_counterexample:
  "depth_ok 2 example_stale 0
   \<and> track_torch_params False 2 example_stale 0 = Inr example_stale
   \<and> torch_params (layer_objs example_stale 0) = Some 102
   \<and> param_lists example_stale 102 = [10, 11, 12, 13]
   \<and> map var_value (trainable_variables (layer_objs example_stale 0))
       @ map var_value (non_trainable_variables (layer_objs example_stale 0))
       @ map (\<lambda>sg. var_value (state sg)) (seed_generators (layer_objs example_stale 0))
       = [10, 11, 12, 13, 14]"
  by (simp add: example_stale_def example_defs numeral_2_eq_2)

text \<open>
  C2, as the code has it. \<^verbatim>\<open>_post_build\<close> under an active stateless scope creates no
  snapshot: it returns the store as it is. A following \<^verbatim>\<open>named_parameters\<close> on the
  layer raises the not-built \<^verbatim>\<open>RuntimeError\<close> when the layer has no snapshot and its
  \<^verbatim>\<open>built\<close> flag is false; when the flag is true it creates the snapshot on demand
  and returns the enumeration instead.
\<close>

theorem post_build_stateless:
  "post_build True d h self = Inr h
   \<and> (\<not> torch_params_tracked h self \<and> \<not> built (layer_objs h self) \<longrightarrow>
        named_parameters E s d h self prefix recurse remove_duplicate
          = Inl (RuntimeError not_built_message))
   \<and> (\<not> torch_params_tracked h self \<and> built (layer_objs h self) \<and> depth_ok d h self \<longrightarrow>
        (\<exists>h'. named_parameters E s d h self prefix recurse remove_duplicate
                 = Inr (h', E h' self prefix recurse remove_duplicate)
              \<and> torch_params_tracked h' self))"
proof -
  have "\<exists>h'. track_torch_params s d h self = Inr h' \<and> torch_params_tracked h' self"
    if "depth_ok d h self"
    using track_succeeds[OF that] track_tracked by blast
  then show ?thesis
    by (auto simp: post_build_def named_parameters_def)
qed

theorem post_build_stateless_witness:
  "post_build True 2 example_heap 5 = Inr example_heap
   \<and> \<not> torch_params_tracked example_heap 5 \<and> \<not> built (layer_objs example_heap 5)
   \<and> named_parameters (\<lambda>h a p r rd. ()) False 2 example_heap 5 [] True True
       = Inl (RuntimeError not_built_message)
   \<and> \<not> torch_params_tracked example_heap 0 \<and> built (layer_objs example_heap 0)
   \<and> depth_ok 2 example_heap 0
   \<and> (\<exists>h'. named_parameters (\<lambda>h a p r rd. ()) False 2 example_heap 0 [] True True = Inr (h', ())
         \<and> torch_params_tracked h' 0)"
proof -
  have a: "\<not> torch_params_tracked example_heap 5 \<and> \<not> built (layer_objs example_heap 5)"
    by (simp add: torch_params_tracked_def example_heap_def empty_layer_def)
  have b: "\<not> torch_params_tracked example_heap 0 \<and> built (layer_objs example_heap 0)
           \<and> depth_ok 2 example_heap 0"
    using example_depth_ok by (simp add: torch_params_tracked_def example_heap_def)
  note t = post_build_stateless[where d = 2 and h = example_heap and E = "\<lambda>h a p r rd. ()"
      and s = False and prefix = "[]" and recurse = True and remove_duplicate = True]
  from t[where self = 5] a b t[where self = 0] show ?thesis by blast
qed

text \<open>The claim as stated fails on a layer whose \<^verbatim>\<open>built\<close> flag is set: after
  \<^verbatim>\<open>_post_build\<close> in a stateless scope it has no snapshot, and \<^verbatim>\<open>named_parameters\<close>
  returns normally, having built one.\<close>

theorem post_build_stateless_counterexample:
  "post_build True 2 example_heap 0 = Inr example_heap
   \<and> \<not> torch_params_tracked example_heap 0
   \<and> named_parameters (\<lambda>h a p r rd. ()) False 2 example_heap 0 [] True True
       = Inr (example_exposed, ())"
  using example_track
  by (simp add: post_build_def named_parameters_def torch_params_tracked_def example_heap_def)

text \<open>
  C3. \<^verbatim>\<open>named_parameters\<close> raises the \<^verbatim>\<open>RuntimeError\<close> with the message ``Torch
  parameters are not tracked yet and layer is not built. Did you forget to call
  build()?'' if and only if the layer has no snapshot and is not built. If the layer has
  no snapshot but is built, the call runs \<^verbatim>\<open>_track_torch_params\<close> on demand and returns
  torch's enumeration of the store that this leaves, without error (given that the
  sublayers fit the recursion bound). The only other error the call can end in is the
  \<^verbatim>\<open>RecursionError\<close> of that recursion.
\<close>

theorem named_parameters_not_built:
  "((named_parameters E s d h self prefix recurse remove_duplicate
       = Inl (RuntimeError
           ''Torch parameters are not tracked yet and layer is not built. Did you forget to call build()?''))
     = (\<not> torch_params_tracked h self \<and> \<not> built (layer_objs h self)))
   \<and> (\<not> torch_params_tracked h self \<and> built (layer_objs h self) \<and> depth_ok d h self \<longrightarrow>
      (\<exists>h'. track_torch_params s d h self = Inr h' \<and> torch_params_tracked h' self
         \<and> named_parameters E s d h self prefix recurse remove_duplicate
             = Inr (h', E h' self prefix recurse remove_duplicate)))
   \<and> (named_parameters E s d h self prefix recurse remove_duplicate = Inl e \<longrightarrow>
        e = RuntimeError
              ''Torch parameters are not tracked yet and layer is not built. Did you forget to call build()?''
        \<or> e = RecursionError \<and> \<not> torch_params_tracked h self \<and> built (layer_objs h self))"
proof (intro conjI impI)
  show "(named_parameters E s d h self prefix recurse remove_duplicate
       = Inl (RuntimeError
           ''Torch parameters are not tracked yet and layer is not built. Did you forget to call build()?''))
     = (\<not> torch_params_tracked h self \<and> \<not> built (layer_objs h self))"
    by (auto simp: named_parameters_def not_built_message_def split: sum.splits
        dest: track_error)
next
  assume a: "\<not> torch_params_tracked h self \<and> built (layer_objs h self) \<and> depth_ok d h self"
  then obtain h' where t: "track_torch_params s d h self = Inr h'"
    using track_succeeds by blast
  then have "torch_params_tracked h' self" by (rule track_tracked)
  with a t show "\<exists>h'. track_torch_params s d h self = Inr h' \<and> torch_params_tracked h' self
         \<and> named_parameters E s d h self prefix recurse remove_duplicate
             = Inr (h', E h' self prefix recurse remove_duplicate)"
    by (simp add: named_parameters_def)
next
  assume "named_parameters E s d h self prefix recurse remove_duplicate = Inl e"
  then show "e = RuntimeError
              ''Torch parameters are not tracked yet and layer is not built. Did you forget to call build()?''
        \<or> e = RecursionError \<and> \<not> torch_params_tracked h self \<and> built (layer_objs h self)"
    by (auto simp: named_parameters_def not_built_message_def split: sum.splits if_splits
        dest: track_error)
qed

theorem named_parameters_not_built_witness:
  "\<not> torch_params_tracked example_heap 5 \<and> \<not> built (layer_objs example_heap 5)
   \<and> named_parameters (\<lambda>h a p r rd. ()) False 2 example_heap 5 [] True True
       = Inl (RuntimeError
           ''Torch parameters are not tracked yet and layer is not built. Did you forget to call build()?'')
   \<and> \<not> torch_params_tracked example_heap 0 \<and> built (layer_objs example_heap 0)
   \<and> depth_ok 2 example_heap 0
   \<and> (\<exists>h'. track_torch_params False 2 example_heap 0 = Inr h' \<and> torch_params_tracked h' 0
          \<and> named_parameters (\<lambda>h a p r rd. ()) False 2 example_heap 0 [] True True
              = Inr (h', ()))"
proof -
  have a: "\<not> torch_params_tracked example_heap 5 \<and> \<not> built (layer_objs example_heap 5)"
    by (simp add: torch_params_tracked_def example_heap_def empty_layer_def)
  have b: "\<not> torch_params_tracked example_heap 0 \<and> built (layer_objs example_heap 0)
           \<and> depth_ok 2 example_heap 0"
    using example_depth_ok by (simp add: torch_params_tracked_def example_heap_def)
  note t = named_parameters_not_built[where E = "\<lambda>h a p r rd. ()" and s = False and d = 2
      and h = example_heap and prefix = "[]" and recurse = True and remove_duplicate = True]
  from t[where self = 5] a have 1: "named_parameters (\<lambda>h a p r rd. ()) False 2 example_heap 5 [] True True
       = Inl (RuntimeError
           ''Torch parameters are not tracked yet and layer is not built. Did you forget to call build()?'')"
    by blast
  from t[where self = 0] b have 2: "\<exists>h'. track_torch_params False 2 example_heap 0 = Inr h'
          \<and> torch_params_tracked h' 0
          \<and> named_parameters (\<lambda>h a p r rd. ()) False 2 example_heap 0 [] True True
              = Inr (h', ())"
    by blast
  from a b 1 2 show ?thesis by blast
qed

text \<open>
  C4, at inputs where the code fails. \<^verbatim>\<open>_untrack_torch_params\<close> ends in
  \<^verbatim>\<open>del self.torch_params\<close> with no test, so it is an error and not a no-op at a
  node that has no snapshot: on a layer that has none, and on the layer at address 3 of
  the store with the shared sublayer, which every layer's snapshot is present in and
  which the call reaches twice, the second time with its snapshot gone.
\<close>

theorem untrack_torch_params_redundant:
  "\<not> torch_params_tracked example_heap 1
   \<and> untrack_torch_params 1 example_heap 1 = Inl AttributeError
   \<and> track_torch_params False 3 example_shared 0 = Inr example_shared_exposed
   \<and> torch_params_tracked example_shared_exposed 3
   \<and> untrack_torch_params 3 example_shared_exposed 0 = Inl AttributeError"
  by (simp add: example_heap_def example_shared_defs numeral_3_eq_3)

text \<open>
  C5. Calling \<^verbatim>\<open>_track_torch_params\<close> twice in a row, with no track or untrack in
  between, is idempotent: if the first call returns the store \<open>h1\<close>, the second call
  returns the very same store. So nothing is rebuilt or allocated, and the layer's
  \<^verbatim>\<open>torch_params\<close> still refers to the object that the first call left there.
\<close>

theorem track_torch_params_idempotent:
  assumes "track_torch_params s d h self = Inr h1"
  shows "track_torch_params s d h1 self = Inr h1 \<and> torch_params_tracked h1 self"
proof -
  have st: "subtree_tracked d h1 self" using assms by (rule track_subtree_tracked)
  then have "torch_params_tracked h1 self" by (cases d) auto
  with st show ?thesis by (simp add: track_tracked_unchanged)
qed

theorem track_torch_params_idempotent_witness:
  "track_torch_params False 2 example_heap 0 = Inr example_exposed
   \<and> track_torch_params False 2 example_exposed 0 = Inr example_exposed
   \<and> torch_params_tracked example_exposed 0"
proof -
  have h: "track_torch_params False 2 example_heap 0 = Inr example_exposed"
    by (rule example_track)
  show ?thesis using h track_torch_params_idempotent[OF h] by simp
qed

text \<open>
  C6, at an input where the code fails. The layer at address 0 has a snapshot, and so
  has every layer below it; the layer at address 3 is a sublayer of both sublayers of
  0. A variable is tracked on layer 0 and \<^verbatim>\<open>_post_track_variable\<close> runs: the first visit
  of \<^verbatim>\<open>_untrack_torch_params\<close> to layer 3 deletes its snapshot, the second visit finds
  none, and the call ends in \<^verbatim>\<open>AttributeError\<close>. No snapshot is rebuilt.
\<close>

theorem post_track_variable_shared_sublayer:
  "track_torch_params False 3 example_shared 0 = Inr example_shared_exposed
   \<and> torch_params_tracked example_shared_changed 0
   \<and> post_track_variable False 3 example_shared_changed 0 (mk_variable ''lora'' 40)
       = Inl AttributeError"
  by (simp add: example_shared_defs numeral_3_eq_3 post_track_variable_def)

text \<open>
  C7, as the code has it. \<^verbatim>\<open>_setattr_hook\<close> returns the name unchanged, and the value
  wrapped in a \<^verbatim>\<open>TorchModuleWrapper\<close> if and only if the value is a
  \<^verbatim>\<open>torch.nn.Module\<close>, the value is not a \<^verbatim>\<open>Layer\<close>, the name is not
  \<^verbatim>\<open>torch_params\<close>, and the layer that receives the assignment is not itself a
  \<^verbatim>\<open>TorchModuleWrapper\<close>; in every other case the value is returned as it is. (A value
  that is already a \<^verbatim>\<open>TorchModuleWrapper\<close> is a \<^verbatim>\<open>Layer\<close> and so is not wrapped.)
\<close>

theorem setattr_hook_wraps:
  "setattr_hook self name v =
     (name, if isinstance_Module v \<and> \<not> isinstance_Layer v \<and> name \<noteq> ''torch_params''
               \<and> \<not> isinstance_TorchModuleWrapper self
            then TorchModuleWrapper v else v)
   \<and> (snd (setattr_hook self name v) = TorchModuleWrapper v \<longleftrightarrow>
        isinstance_Module v \<and> \<not> isinstance_Layer v \<and> name \<noteq> ''torch_params''
        \<and> \<not> isinstance_TorchModuleWrapper self)
   \<and> (snd (setattr_hook self name v) \<noteq> TorchModuleWrapper v \<longrightarrow>
        snd (setattr_hook self name v) = v)"
  using wrapper_neq[of v] by (auto simp: setattr_hook_def)

theorem setattr_hook_wraps_witness:
  "setattr_hook (KerasLayer 0) ''encoder'' (TorchModule 7)
     = (''encoder'', TorchModuleWrapper (TorchModule 7))
   \<and> snd (setattr_hook (KerasLayer 0) ''torch_params'' (TorchModule 7))
       \<noteq> TorchModuleWrapper (TorchModule 7)
   \<and> snd (setattr_hook (KerasLayer 0) ''torch_params'' (TorchModule 7)) = TorchModule 7"
  using setattr_hook_wraps[of "KerasLayer 0" "''encoder''" "TorchModule 7"]
    setattr_hook_wraps[of "KerasLayer 0" "''torch_params''" "TorchModule 7"]
  by simp

text \<open>The claim as stated fails where the receiving layer is a \<^verbatim>\<open>TorchModuleWrapper\<close>:
  the value is a module, not a layer, not a wrapper, the name is not \<^verbatim>\<open>torch_params\<close>,
  and yet the value is stored unwrapped.\<close>

theorem setattr_hook_wraps_counterexample:
  "isinstance_Module (TorchModule 0) \<and> \<not> isinstance_Layer (TorchModule 0)
   \<and> \<not> isinstance_TorchModuleWrapper (TorchModule 0) \<and> ''module'' \<noteq> ''torch_params''
   \<and> setattr_hook (TorchModuleWrapper (TorchModule 0)) ''module'' (TorchModule 0)
       = (''module'', TorchModule 0)"
  by (simp add: setattr_hook_def)

text \<open>
  C8. Two independent runs on one layer tree yield the same ordered list of names and
  handle positions. The runs are \<open>in_step\<close>: the same tree, registry, variables and
  snapshots, held in objects whose addresses differ between the runs in any way (the
  renamings \<open>\<sigma>\<close> of the layers and \<open>\<rho>\<close> of the tensors and parameter lists are
  injective, and nothing else). Then, in or out of a stateless scope, each of
  \<^verbatim>\<open>_track_torch_params\<close>, \<^verbatim>\<open>_untrack_torch_params\<close>, \<^verbatim>\<open>_post_build\<close>,
  \<^verbatim>\<open>_post_track_variable\<close> and \<^verbatim>\<open>_post_untrack_variable\<close> ends in the same exception
  in both runs or leaves them in step; and \<^verbatim>\<open>named_parameters\<close> ends in the same
  exception in both runs or leaves them in step and gives, in both, enumerations with
  the same names in the same order, the handle at each position of the second being the
  object that corresponds to the handle at that position of the first (or the traversal
  raises the same exception in both). So the list depends on the tree and on the calls
  made, and not on the identity of the objects.
\<close>

theorem named_parameters_deterministic:
  assumes "in_step \<sigma> \<rho> h1 h2" and "inj \<sigma>" and "inj \<rho>"
  shows "rel_sum (=) (in_step \<sigma> \<rho>)
           (track_torch_params s d h1 a) (track_torch_params s d h2 (\<sigma> a))
       \<and> rel_sum (=) (in_step \<sigma> \<rho>)
           (untrack_torch_params d h1 a) (untrack_torch_params d h2 (\<sigma> a))
       \<and> rel_sum (=) (in_step \<sigma> \<rho>) (post_build s d h1 a) (post_build s d h2 (\<sigma> a))
       \<and> rel_sum (=) (in_step \<sigma> \<rho>)
           (post_track_variable s d h1 a v) (post_track_variable s d h2 (\<sigma> a) (rename \<rho> v))
       \<and> rel_sum (=) (in_step \<sigma> \<rho>)
           (post_untrack_variable s d h1 a v)
           (post_untrack_variable s d h2 (\<sigma> a) (rename \<rho> v))
       \<and> rel_sum (=) (rel_prod (in_step \<sigma> \<rho>) (rel_sum (=) (same_enumeration \<rho>)))
           (named_parameters (Module_named_parameters k) s d h1 a prefix recurse
              remove_duplicate)
           (named_parameters (Module_named_parameters k) s d h2 (\<sigma> a) prefix recurse
              remove_duplicate)"
  using track_related[OF assms(2,3,1)] untrack_related[OF assms(2,1)]
    post_build_related[OF assms] retrack_related[OF assms] post_untrack_related[OF assms]
    named_parameters_related[OF assms]
  by simp

theorem named_parameters_deterministic_witness:
  "in_step example_layer_renaming example_renaming example_heap example_second_run
   \<and> inj example_layer_renaming \<and> inj example_renaming
   \<and> named_parameters (Module_named_parameters 4) False 2 example_heap 0 [] True True
       = Inr (example_exposed,
            Inr [(''first.torch_params.0'', 20), (''second.torch_params.0'', 21),
                 (''torch_params.0'', 10), (''torch_params.1'', 11), (''torch_params.2'', 12),
                 (''torch_params.3'', 13)])
   \<and> (\<exists>g. named_parameters (Module_named_parameters 4) False 2 example_second_run 7 [] True True
       = Inr (g,
            Inr [(''first.torch_params.0'', 520), (''second.torch_params.0'', 521),
                 (''torch_params.0'', 511), (''torch_params.1'', 510), (''torch_params.2'', 512),
                 (''torch_params.3'', 513)]))"
proof -
  let ?xs = "[(''first.torch_params.0'', 20), (''second.torch_params.0'', 21),
                 (''torch_params.0'', 10), (''torch_params.1'', 11), (''torch_params.2'', 12),
                 (''torch_params.3'', 13)] :: (string \<times> addr) list"
  let ?R = "rel_prod (in_step example_layer_renaming example_renaming)
              (rel_sum (=) (same_enumeration example_renaming))"
  from named_parameters_deterministic[OF example_in_step example_layer_renaming_inj
      example_renaming_inj, where s = False and d = 2 and a = 0 and k = 4 and prefix = "[]"
        and recurse = True and remove_duplicate = True]
  have "rel_sum (=) ?R
           (named_parameters (Module_named_parameters 4) False 2 example_heap 0 [] True True)
           (named_parameters (Module_named_parameters 4) False 2 example_second_run 7 [] True True)"
    by (simp add: example_layer_renaming_def)
  from rel_sum_InrD[OF this example_enumeration] obtain w
    where w: "named_parameters (Module_named_parameters 4) False 2 example_second_run 7 [] True True
                = Inr w"
      and rw: "?R (example_exposed, Inr ?xs) w"
    by blast
  obtain g res where wg: "w = (g, res)" by (cases w)
  with rw have "rel_sum (=) (same_enumeration example_renaming) (Inr ?xs) res" by simp
  from rel_sum_InrD[OF this refl] obtain ys where res: "res = Inr ys"
    and "same_enumeration example_renaming ?xs ys" by blast
  then have "ys = map (apsnd example_renaming) ?xs" by (simp add: same_enumeration_iff)
  then have "ys = [(''first.torch_params.0'', 520), (''second.torch_params.0'', 521),
                 (''torch_params.0'', 511), (''torch_params.1'', 510), (''torch_params.2'', 512),
                 (''torch_params.3'', 513)]"
    by (simp add: example_renaming_def)
  with w wg res example_in_step example_layer_renaming_inj example_renaming_inj
    example_enumeration show ?thesis by simp
qed

text \<open>
  C9, at an input where the code fails. The layer at address 0 is built and has no
  snapshot, and a stateless scope is active. \<^verbatim>\<open>_post_build\<close> would do nothing there,
  but \<^verbatim>\<open>named_parameters\<close> does not ask for the scope: it runs
  \<^verbatim>\<open>_track_torch_params\<close>, which reads placeholders, and the snapshot it leaves holds
  four new parameters and none of the handles that the layer's variables own.
\<close>

theorem named_parameters_stateless_scope:
  "post_build True 2 example_heap 0 = Inr example_heap
   \<and> built (layer_objs example_heap 0) \<and> \<not> torch_params_tracked example_heap 0
   \<and> named_parameters (\<lambda>h a p r rd. ()) True 2 example_heap 0 [] True True
       = Inr (example_exposed_stateless, ())
   \<and> torch_params (layer_objs example_exposed_stateless 0) = Some 104
   \<and> param_lists example_exposed_stateless 104 = [105, 106, 107, 108]
   \<and> own_handles (layer_objs example_exposed_stateless 0) = [10, 11, 12, 13]"
  by (simp add: post_build_def named_parameters_def example_exposed_stateless_def own_handles_def
      example_defs numeral_2_eq_2)

text \<open>
  C10, as the code has it. The subtree invariant (a layer that has a snapshot has
  sublayers that all have one) is kept by every call of \<^verbatim>\<open>_track_torch_params\<close>,
  \<^verbatim>\<open>_post_build\<close>, \<^verbatim>\<open>_post_track_variable\<close> and \<^verbatim>\<open>_post_untrack_variable\<close> that
  returns, on whichever layer it is made. Where it holds,
  \<^verbatim>\<open>_untrack_torch_params\<close> on a layer that has a snapshot returns and leaves no
  snapshot below that layer, provided that the layers below it fit the recursion bound
  and none of them is reached twice.
\<close>

theorem snapshot_closed_preserved:
  assumes "snapshot_closed h"
  shows "(track_torch_params s d h b = Inr h' \<longrightarrow> snapshot_closed h')
       \<and> (post_build s d h b = Inr h' \<longrightarrow> snapshot_closed h')
       \<and> (post_track_variable s d h b v = Inr h' \<longrightarrow> snapshot_closed h')
       \<and> (post_untrack_variable s d h b v = Inr h' \<longrightarrow> snapshot_closed h')
       \<and> (torch_params_tracked h b \<and> depth_ok d h b \<and> distinct (subtree d h b) \<longrightarrow>
            (\<exists>h''. untrack_torch_params d h b = Inr h''
                   \<and> (\<forall>x \<in> set (subtree d h b). \<not> torch_params_tracked h'' x)))"
proof (intro conjI impI)
  assume "track_torch_params s d h b = Inr h'"
  with assms show "snapshot_closed h'" by (rule track_closed)
next
  assume "post_build s d h b = Inr h'"
  with assms show "snapshot_closed h'"
    by (auto simp: post_build_def split: if_splits intro: track_closed)
next
  assume "post_track_variable s d h b v = Inr h'"
  with assms show "snapshot_closed h'"
    by (auto simp: post_track_variable_def split: if_splits sum.splits intro: retrack_closed)
next
  assume "post_untrack_variable s d h b v = Inr h'"
  with assms show "snapshot_closed h'"
    by (auto simp: post_untrack_variable_def split: if_splits sum.splits intro: retrack_closed)
next
  assume a: "torch_params_tracked h b \<and> depth_ok d h b \<and> distinct (subtree d h b)"
  then have "\<forall>x \<in> set (subtree d h b). torch_params_tracked h x"
    using closed_subtree_tracked[OF assms] by blast
  with a show "\<exists>h''. untrack_torch_params d h b = Inr h''
                   \<and> (\<forall>x \<in> set (subtree d h b). \<not> torch_params_tracked h'' x)"
    using untrack_succeeds by blast
qed

theorem snapshot_closed_preserved_witness:
  "snapshot_closed example_heap
   \<and> track_torch_params False 2 example_heap 0 = Inr example_exposed
   \<and> snapshot_closed example_exposed
   \<and> torch_params_tracked example_exposed 0 \<and> depth_ok 2 example_exposed 0
   \<and> distinct (subtree 2 example_exposed 0)
   \<and> (\<exists>h''. untrack_torch_params 2 example_exposed 0 = Inr h''
          \<and> \<not> torch_params_tracked h'' 0 \<and> \<not> torch_params_tracked h'' 1
          \<and> \<not> torch_params_tracked h'' 2)
   \<and> (\<exists>h'. post_track_variable False 2 example_exposed 0 (mk_variable ''a'' 10) = Inr h'
          \<and> snapshot_closed h')"
proof -
  note t1 = snapshot_closed_preserved[OF example_closed, where s = False and d = 2 and b = 0
      and h' = example_exposed]
  have c: "snapshot_closed example_exposed" using t1 example_track by blast
  have a: "torch_params_tracked example_exposed 0" by (simp add: example_defs)
  have d: "depth_ok 2 example_exposed 0" by (simp add: example_defs numeral_2_eq_2)
  have s: "subtree 2 example_exposed 0 = [0, 1, 2]" by (simp add: example_defs numeral_2_eq_2)
  have p: "\<exists>h'. post_track_variable False 2 example_exposed 0 (mk_variable ''a'' 10) = Inr h'"
    by (simp add: example_defs numeral_2_eq_2 post_track_variable_def del_torch_params_def)
  then obtain h' where h': "post_track_variable False 2 example_exposed 0 (mk_variable ''a'' 10) = Inr h'"
    by blast
  note t2 = snapshot_closed_preserved[OF c, where s = False and d = 2 and b = 0 and h' = h'
      and v = "mk_variable ''a'' 10"]
  have c': "snapshot_closed h'" using t2 h' by blast
  from t2 a d s obtain h'' where "untrack_torch_params 2 example_exposed 0 = Inr h''"
    "\<forall>x \<in> set [0, 1, 2]. \<not> torch_params_tracked h'' x"
    by auto
  then show ?thesis using example_closed example_track c a d s h' c' by auto
qed

text \<open>The claim as stated fails: \<^verbatim>\<open>_untrack_torch_params\<close>, one of the operations it
  lists, called on a sublayer removes that sublayer's snapshot and leaves the parent's.
  In the state reached the parent has a snapshot and its sublayer has none, and
  \<^verbatim>\<open>_untrack_torch_params\<close> on the parent raises \<^verbatim>\<open>AttributeError\<close>.\<close>

theorem snapshot_closed_preserved_counterexample:
  "track_torch_params False 2 example_heap 0 = Inr example_exposed
   \<and> untrack_torch_params 1 example_exposed 1 = Inr example_child_untracked
   \<and> torch_params_tracked example_child_untracked 0
   \<and> 1 \<in> set (layers (layer_objs example_child_untracked 0))
   \<and> \<not> torch_params_tracked example_child_untracked 1
   \<and> untrack_torch_params 2 example_child_untracked 0 = Inl AttributeError"
  using example_track
  by (simp add: example_child_untracked_def example_defs del_torch_params_def numeral_2_eq_2)

end
